theory Spec2Isabelle
  imports Complex_Main
begin

section \<open>Smooth pursuit eye movements: the model of the notebook\<close>

text \<open>
  The notebook \<^verbatim>\<open>example_2_eye_movements.ipynb\<close> describes a network for the Brian 2
  simulator: an eye (one unit, five state variables), two motoneurons, a retina of
  \<open>N\<close> units, and two synapse groups. Quantities are dimensionless or in seconds;
  numbers are real numbers (the rounding of floating point is not modelled).

  The notebook only declares the network; what a declaration means is the simulator's
  documented behaviour, which the model follows:
  \<^item> the clock advances in steps of 0.1 ms, the default;
  \<^item> in every step the state monitor records, then all groups are integrated from the
    values at the start of the step, then the thresholds are tested, then the synapses of
    the units that spiked act, then the units that spiked are reset;
  \<^item> \<^verbatim>\<open>method='euler'\<close> is the explicit Euler step, with \<open>sqrt dt\<close> times a standard
    normal draw for the noise \<^verbatim>\<open>xi\<close>; \<^verbatim>\<open>method='exact'\<close> is the solution of the linear
    equation over one step;
  \<^item> \<^verbatim>\<open>refractory\<close> keeps a unit from spiking until the period has passed since its last
    spike; it stops the integration of a variable only where the equation carries the
    flag \<^verbatim>\<open>(unless refractory)\<close>, and it does not block synaptic events;
  \<^item> a linked variable reads the current value of the variable it is linked to.
\<close>

subsection \<open>Parameters (cells 2, 3 and 5 of the notebook)\<close>

definition ms :: real where
  "ms = 1 / 1000"

definition alpha :: real where
  "alpha = (1 / (50 * ms))\<^sup>2"

definition beta :: real where
  "beta = 1 / (50 * ms)"

definition tau_muscle :: real where
  "tau_muscle = 20 * ms"

definition tau_object :: real where
  "tau_object = 500 * ms"

definition taum :: real where
  "taum = 20 * ms"

definition refractory :: real where
  "refractory = 5 * ms"

definition N :: nat where
  "N = 20"

definition width :: real where
  "width = 2 / real N"

definition gain :: real where
  "gain = 4"

text \<open>\<^verbatim>\<open>retina.x_neuron = '-1.0 + 2.0*i/(N-1)'\<close>\<close>

definition x_neuron :: "nat \<Rightarrow> real" where
  "x_neuron i = -1 + 2 * real i / real (N - 1)"

text \<open>\<^verbatim>\<open>I = gain*exp(-((x_object-x_eye-x_neuron)/width)**2)\<close>\<close>

definition I_retina :: "real \<Rightarrow> real \<Rightarrow> real \<Rightarrow> real" where
  "I_retina xobj xeye xn = gain * exp (- ((xobj - xeye - xn) / width)\<^sup>2)"

subsection \<open>Synapses (cells 4 and 6)\<close>

text \<open>
  \<^verbatim>\<open>motosynapses.connect()\<close> creates one synapse for every pair of a motoneuron and an
  eye unit, in the order of the source index; \<^verbatim>\<open>motosynapses.w = [-0.5,0.5]\<close>.
\<close>

definition motosynapses_connect :: "(nat \<times> nat) list" where
  "motosynapses_connect = concat (map (\<lambda>i. map (\<lambda>j. (i, j)) [0..<1]) [0..<2])"

definition motosynapses_w :: "real list" where
  "motosynapses_w = [- (1 / 2), 1 / 2]"

text \<open>
  \<^verbatim>\<open>sensorimotor_synapses.connect(j = 'int(x_neuron_pre > 0)')\<close> creates, for every
  retinal unit \<open>i\<close>, one synapse to the target the expression gives;
  \<^verbatim>\<open>sensorimotor_synapses.w = '20*abs(x_neuron_pre)/N_pre'\<close> is evaluated once per synapse,
  \<^verbatim>\<open>N_pre\<close> being the number of units of the retina.
\<close>

definition sensorimotor_j :: "real \<Rightarrow> nat" where
  "sensorimotor_j xn = (if xn > 0 then 1 else 0)"

definition sensorimotor_connect :: "(nat \<times> nat) list" where
  "sensorimotor_connect = map (\<lambda>i. (i, sensorimotor_j (x_neuron i))) [0..<N]"

definition sensorimotor_w :: "real list" where
  "sensorimotor_w = map (\<lambda>(i, j). 20 * \<bar>x_neuron i\<bar> / real N) sensorimotor_connect"

subsection \<open>The clock and the random source\<close>

text \<open>
  The notebook keeps the simulator's default clock, whose step is 0.1 ms. The calls
  \<^verbatim>\<open>seed(79620)\<close>, \<^verbatim>\<open>rand()\<close> and the noise \<^verbatim>\<open>xi\<close> draw from a seeded generator; the
  draws are a parameter of the model: \<open>xi rs n\<close> is the standard normal draw of the
  eye's noise at time step \<open>n\<close>, \<open>rand rs i\<close> the uniform draw that initialises the
  potential of retinal unit \<open>i\<close>.
\<close>

definition dt :: real where
  "dt = 1 / 10 * ms"

record random_source =
  xi :: "nat \<Rightarrow> real"
  rand :: "nat \<Rightarrow> real"

subsection \<open>State of the network and of the monitors\<close>

record network_state =
  t_step :: nat
  eye_x :: real
  eye_velocity :: real
  eye_x0 :: real
  eye_x_object :: real
  eye_noise :: real
  moto_v :: "real list"
  moto_lastspike :: "nat option list"
  retina_v :: "real list"
  retina_gs :: "real list"
  M :: "(real \<times> real \<times> real) list"
  S_retina :: "(nat \<times> nat) list"
  S_motoneurons :: "(nat \<times> nat) list"

text \<open>
  Every variable starts at 0 except \<^verbatim>\<open>retina.v = 'rand()'\<close>; no motoneuron has spiked
  yet; the monitors are empty.
\<close>

definition init :: "random_source \<Rightarrow> network_state" where
  "init rs = \<lparr>t_step = 0, eye_x = 0, eye_velocity = 0, eye_x0 = 0, eye_x_object = 0,
     eye_noise = 0, moto_v = replicate 2 0, moto_lastspike = replicate 2 None,
     retina_v = map (rand rs) [0..<N], retina_gs = replicate N 0,
     M = [], S_retina = [], S_motoneurons = []\<rparr>"

subsection \<open>State updaters\<close>

text \<open>
  The eye is integrated with \<^verbatim>\<open>method='euler'\<close>: every variable advances by \<open>dt\<close>
  times its right-hand side at the old values; the noise term \<^verbatim>\<open>tau_object**-0.5*xi\<close>
  advances by \<open>sqrt dt\<close> times a normal draw.
\<close>

definition euler_x :: "network_state \<Rightarrow> real" where
  "euler_x s = eye_x s + dt * eye_velocity s"

definition euler_velocity :: "network_state \<Rightarrow> real" where
  "euler_velocity s =
     eye_velocity s + dt * (alpha * (eye_x0 s - eye_x s) - beta * eye_velocity s)"

definition euler_x0 :: "network_state \<Rightarrow> real" where
  "euler_x0 s = eye_x0 s + dt * (- eye_x0 s / tau_muscle)"

definition euler_x_object :: "network_state \<Rightarrow> real" where
  "euler_x_object s = eye_x_object s + dt * ((eye_noise s - eye_x_object s) / tau_object)"

definition euler_noise :: "real \<Rightarrow> network_state \<Rightarrow> real" where
  "euler_noise r s =
     eye_noise s + dt * (- eye_noise s / tau_object) + tau_object powr (- (1 / 2)) * sqrt dt * r"

text \<open>
  The motoneurons and the retina are integrated with \<^verbatim>\<open>method='exact'\<close>: the solution of
  the linear equation over one step, the drive \<open>I\<close> and the conductance \<open>gs\<close> held at
  their values at the start of the step.
  \<^verbatim>\<open>dv/dt = -v/taum\<close> and \<^verbatim>\<open>dv/dt = (I-(1+gs)*v)/taum\<close>.
\<close>

definition exact_moto :: "real \<Rightarrow> real" where
  "exact_moto v = v * exp (- dt / taum)"

definition exact_retina :: "real \<Rightarrow> real \<Rightarrow> real \<Rightarrow> real" where
  "exact_retina I gs v =
     I / (1 + gs) + (v - I / (1 + gs)) * exp (- (1 + gs) * dt / taum)"

definition moto_integrated :: "network_state \<Rightarrow> real list" where
  "moto_integrated s = map exact_moto (moto_v s)"

definition retina_I :: "network_state \<Rightarrow> nat \<Rightarrow> real" where
  "retina_I s i = I_retina (eye_x_object s) (eye_x s) (x_neuron i)"

definition retina_integrated :: "network_state \<Rightarrow> real list" where
  "retina_integrated s =
     map (\<lambda>i. exact_retina (retina_I s i) (retina_gs s ! i) (retina_v s ! i)) [0..<N]"

subsection \<open>Thresholds\<close>

text \<open>
  \<^verbatim>\<open>refractory = 5*ms\<close>: a motoneuron is refractory until the time since its last spike
  reaches the refractory period. Only the threshold looks at it: the equation of \<open>v\<close>
  carries no \<^verbatim>\<open>(unless refractory)\<close> flag.
\<close>

definition not_refractory :: "nat \<Rightarrow> nat option \<Rightarrow> bool" where
  "not_refractory n ls =
     (case ls of None \<Rightarrow> True | Some l \<Rightarrow> real n * dt - real l * dt \<ge> refractory)"

text \<open>\<^verbatim>\<open>threshold = 'v>1'\<close>, evaluated on the integrated potentials.\<close>

definition moto_spikes :: "network_state \<Rightarrow> nat list" where
  "moto_spikes s =
     filter (\<lambda>i. moto_integrated s ! i > 1 \<and> not_refractory (t_step s) (moto_lastspike s ! i))
       [0..<length (moto_v s)]"

definition retina_spikes :: "network_state \<Rightarrow> nat list" where
  "retina_spikes s = filter (\<lambda>i. retina_integrated s ! i > 1) [0..<N]"

subsection \<open>Synaptic events and resets\<close>

text \<open>
  \<^verbatim>\<open>on_pre = 'x0+=w'\<close> and \<^verbatim>\<open>on_pre = 'v+=w'\<close>: every synapse whose source spiked in this
  step adds its weight to the variable of its target, in the same step (no delay).
\<close>

definition on_pre :: "(nat \<times> nat) list \<Rightarrow> real list \<Rightarrow> nat list \<Rightarrow> real list \<Rightarrow> real list" where
  "on_pre conn w spikes target =
     map (\<lambda>j. target ! j +
            sum_list (map snd (filter (\<lambda>((i, j'), wk). j' = j \<and> i \<in> set spikes) (zip conn w))))
       [0..<length target]"

text \<open>\<^verbatim>\<open>reset = 'v=0'\<close> for the units that spiked in this step.\<close>

definition reset :: "nat list \<Rightarrow> real list \<Rightarrow> real list" where
  "reset spikes v = map (\<lambda>i. if i \<in> set spikes then 0 else v ! i) [0..<length v]"

subsection \<open>One time step and the run\<close>

text \<open>
  A time step runs the slots of the simulator's schedule in order: the state monitor
  records (\<open>start\<close>), the state updaters integrate (\<open>groups\<close>), the thresholds are
  tested and the spike monitors record (\<open>thresholds\<close>), the synapses act (\<open>synapses\<close>),
  the potentials of the units that spiked are reset (\<open>resets\<close>). The retina reads the
  linked \<open>x\<close> and \<open>x_object\<close> of the eye as they are at the start of the step.
\<close>

definition step :: "random_source \<Rightarrow> network_state \<Rightarrow> network_state" where
  "step rs s =
     (let n = t_step s;
          msp = moto_spikes s;
          rsp = retina_spikes s
      in \<lparr>t_step = Suc n,
          eye_x = euler_x s,
          eye_velocity = euler_velocity s,
          eye_x0 = on_pre motosynapses_connect motosynapses_w msp [euler_x0 s] ! 0,
          eye_x_object = euler_x_object s,
          eye_noise = euler_noise (xi rs n) s,
          moto_v = reset msp (on_pre sensorimotor_connect sensorimotor_w rsp (moto_integrated s)),
          moto_lastspike =
            map (\<lambda>i. if i \<in> set msp then Some n else moto_lastspike s ! i)
              [0..<length (moto_lastspike s)],
          retina_v = reset rsp (retina_integrated s),
          retina_gs = retina_gs s,
          M = M s @ [(eye_x s, eye_x0 s, eye_x_object s)],
          S_retina = S_retina s @ map (\<lambda>i. (n, i)) rsp,
          S_motoneurons = S_motoneurons s @ map (\<lambda>i. (n, i)) msp\<rparr>)"

fun run_steps :: "random_source \<Rightarrow> nat \<Rightarrow> network_state" where
  "run_steps rs 0 = init rs"
| "run_steps rs (Suc n) = step rs (run_steps rs n)"

text \<open>\<^verbatim>\<open>run(10*second)\<close>\<close>

definition second :: real where
  "second = 1"

definition run :: "random_source \<Rightarrow> real \<Rightarrow> network_state" where
  "run rs duration = run_steps rs (nat \<lfloor>duration / dt\<rfloor>)"

subsection \<open>Quantities of the proofs\<close>

text \<open>
  The load of motoneuron \<open>j\<close> under a valuation \<open>f\<close> of the retinal units: the sum of
  \<open>w_i * f i\<close> over the units \<open>i\<close> that project to \<open>j\<close>.
\<close>

definition drive_load :: "nat \<Rightarrow> (nat \<Rightarrow> real) \<Rightarrow> real" where
  "drive_load j f =
     (\<Sum>i\<leftarrow>[0..<N]. if sensorimotor_j (x_neuron i) = j then 20 * \<bar>x_neuron i\<bar> / real N * f i else 0)"

text \<open>
  The states of the run without noise and with all potentials started at 0: the eye rests
  at 0, and the potential of each motoneuron plus the load of the retinal potentials on it
  stays below the load of the retinal drives.
\<close>

definition quiescent :: "network_state \<Rightarrow> bool" where
  "quiescent s \<longleftrightarrow>
     eye_x s = 0 \<and> eye_velocity s = 0 \<and> eye_x0 s = 0 \<and> eye_x_object s = 0 \<and>
     eye_noise s = 0 \<and> length (moto_v s) = 2 \<and> length (retina_v s) = N \<and>
     retina_gs s = replicate N 0 \<and> S_motoneurons s = [] \<and>
     (\<forall>i<N. 0 \<le> retina_v s ! i) \<and>
     (\<forall>j<2. 0 \<le> moto_v s ! j \<and>
        moto_v s ! j + drive_load j (\<lambda>i. retina_v s ! i)
          \<le> drive_load j (\<lambda>i. I_retina 0 0 (x_neuron i)))"

text \<open>
  A random source that steers the target: the noise draws of the first five steps put
  \<open>x_object\<close> midway between the retinal units 18 and 19 for the steps 2 and 3 and midway
  between the units 16 and 17 for the steps 4 to 6; these four units start just below
  the threshold (uniform draws in \<open>[0, 1)\<close>), all others at 0. The noise draws are chosen
  to make the run short, not likely: they are several hundred thousand standard
  deviations large.
\<close>

definition steered_source :: random_source where
  "steered_source =
     \<lparr>xi = (\<lambda>n. (if n = 0 then 4500000 / 19 else if n = 1 then - (4498200 / 19)
                 else if n = 2 then - (49999991 / 950) else if n = 3 then 49980009 / 950
                 else if n = 4 then 7 / 950 else 0) * sqrt 2),
      rand = (\<lambda>i. if i = 18 \<or> i = 19 then 995 / 1000
                 else if i = 16 \<or> i = 17 then 9915 / 10000 else 0)\<rparr>"

text \<open>
  Bands for retinal potentials along that run: the units 18 and 19 lie in \<open>[la, ha]\<close>,
  the units 16 and 17 in \<open>[lb, hb]\<close>, every other unit in \<open>[0, hc]\<close>.
\<close>

definition band :: "real list \<Rightarrow> real \<Rightarrow> real \<Rightarrow> real \<Rightarrow> real \<Rightarrow> real \<Rightarrow> bool" where
  "band v la ha lb hb hc \<longleftrightarrow>
     length v = N \<and>
     (\<forall>i<N. if i = 18 \<or> i = 19 then la \<le> v ! i \<and> v ! i \<le> ha
            else if i = 16 \<or> i = 17 then lb \<le> v ! i \<and> v ! i \<le> hb
            else 0 \<le> v ! i \<and> v ! i \<le> hc)"

section \<open>Connectivity\<close>

lemma N_simps: "N - 1 = 19" "real N = 20"
  by (simp_all add: N_def)

lemma x_neuron_alt: "x_neuron i = (2 * real i - 19) / 19"
  by (simp add: x_neuron_def N_def field_simps)

lemma upt_N: "[0..<N] = [0,1,2,3,4,5,6,7,8,9,10,11,12,13,14,15,16,17,18,19]"
  unfolding N_def by (simp add: upt_rec)

lemma sensorimotor_connect_table: "sensorimotor_connect =
  [(0,0),(1,0),(2,0),(3,0),(4,0),(5,0),(6,0),(7,0),(8,0),(9,0),
   (10,1),(11,1),(12,1),(13,1),(14,1),(15,1),(16,1),(17,1),(18,1),(19,1)]"
  unfolding sensorimotor_connect_def upt_N by (simp add: sensorimotor_j_def x_neuron_alt)

lemma sensorimotor_w_table: "sensorimotor_w =
  [1, 17/19, 15/19, 13/19, 11/19, 9/19, 7/19, 5/19, 3/19, 1/19,
   1/19, 3/19, 5/19, 7/19, 9/19, 11/19, 13/19, 15/19, 17/19, 1]"
  unfolding sensorimotor_w_def sensorimotor_connect_table by (simp add: x_neuron_alt N_def)

lemma all_less_N: "(\<forall>k<N. P k) = (\<forall>k\<in>set [0..<N]. P k)"
  by auto

text \<open>
  Claim C1. With \<open>N = 20\<close>, the sensorimotor connection creates exactly one synapse for
  every retinal unit \<open>k < N\<close>: the list of synapses has \<open>N\<close> entries, its sources are
  \<open>0, \<dots>, N - 1\<close> in order, no entry occurs twice, the only synapse of unit \<open>k\<close> goes
  to the motoneuron \<open>int(x_neuron k > 0)\<close> and has the weight \<open>20 * |x_neuron k| / N\<close>,
  where \<open>x_neuron k = -1 + 2 k / (N - 1)\<close>. The weights are the constant list
  \<open>sensorimotor_w\<close>, which no time step writes.
\<close>

theorem sensorimotor_one_synapse_per_unit:
  "N = 20 \<and> length sensorimotor_connect = N \<and> length sensorimotor_w = N \<and>
   map fst sensorimotor_connect = [0..<N] \<and> distinct sensorimotor_connect \<and>
   (\<forall>k<N. x_neuron k = -1 + 2 * real k / (real N - 1) \<and>
      filter (\<lambda>(i, j). i = k) sensorimotor_connect =
        [(k, if x_neuron k > 0 then 1 else 0)] \<and>
      sensorimotor_connect ! k = (k, if x_neuron k > 0 then 1 else 0) \<and>
      sensorimotor_w ! k = 20 * \<bar>x_neuron k\<bar> / real N)"
proof -
  have g: "N = 20" "length sensorimotor_connect = N" "length sensorimotor_w = N"
    by (simp_all add: N_def sensorimotor_connect_def sensorimotor_w_def)
  have m: "map fst sensorimotor_connect = [0..<N]"
    by (simp add: sensorimotor_connect_def comp_def)
  have d: "distinct sensorimotor_connect"
    using distinct_map [of fst sensorimotor_connect] m by simp
  have p: "\<forall>k<N. x_neuron k = -1 + 2 * real k / (real N - 1) \<and>
      filter (\<lambda>(i, j). i = k) sensorimotor_connect =
        [(k, if x_neuron k > 0 then 1 else 0)] \<and>
      sensorimotor_connect ! k = (k, if x_neuron k > 0 then 1 else 0) \<and>
      sensorimotor_w ! k = 20 * \<bar>x_neuron k\<bar> / real N"
    unfolding all_less_N upt_N sensorimotor_connect_table sensorimotor_w_table
    by (simp add: x_neuron_alt N_def)
  show ?thesis using g m d p by blast
qed

theorem sensorimotor_one_synapse_per_unit_witness:
  "(3::nat) < N \<and> filter (\<lambda>(i, j). i = 3) sensorimotor_connect = [(3, 0)] \<and>
   sensorimotor_w ! 3 = 13 / 19"
proof -
  have h: "(3::nat) < N" by (simp add: N_def)
  have "\<forall>k<N. x_neuron k = -1 + 2 * real k / (real N - 1) \<and>
      filter (\<lambda>(i, j). i = k) sensorimotor_connect =
        [(k, if x_neuron k > 0 then 1 else 0)] \<and>
      sensorimotor_connect ! k = (k, if x_neuron k > 0 then 1 else 0) \<and>
      sensorimotor_w ! k = 20 * \<bar>x_neuron k\<bar> / real N"
    using sensorimotor_one_synapse_per_unit by blast
  with h have "filter (\<lambda>(i, j). i = 3) sensorimotor_connect =
        [(3, if x_neuron 3 > 0 then 1 else 0)] \<and>
      sensorimotor_w ! 3 = 20 * \<bar>x_neuron 3\<bar> / real N"
    by blast
  then show ?thesis using h by (simp add: x_neuron_alt N_def)
qed

text \<open>
  Claim C6. Every retinal unit \<open>k < N\<close> connects to the motoneuron of its hemifield:
  to index 0 when \<open>x_neuron k\<close> is negative, to index 1 when it is positive or zero.
  No unit of the retina sits at position zero, so the second case only ever arises with a
  positive position.
\<close>

theorem hemifield_target:
  "k < N \<Longrightarrow>
     fst (sensorimotor_connect ! k) = k \<and> x_neuron k \<noteq> 0 \<and>
     (x_neuron k < 0 \<longrightarrow> snd (sensorimotor_connect ! k) = 0) \<and>
     (x_neuron k \<ge> 0 \<longrightarrow> snd (sensorimotor_connect ! k) = 1)"
proof -
  have "\<forall>k<N. fst (sensorimotor_connect ! k) = k \<and> x_neuron k \<noteq> 0 \<and>
     (x_neuron k < 0 \<longrightarrow> snd (sensorimotor_connect ! k) = 0) \<and>
     (x_neuron k \<ge> 0 \<longrightarrow> snd (sensorimotor_connect ! k) = 1)"
    unfolding all_less_N upt_N sensorimotor_connect_table
    by (simp add: x_neuron_alt)
  then show "k < N \<Longrightarrow> ?thesis" by blast
qed

theorem hemifield_target_witness:
  "(3::nat) < N \<and> x_neuron 3 < 0 \<and> snd (sensorimotor_connect ! 3) = 0 \<and>
   (10::nat) < N \<and> x_neuron 10 \<ge> 0 \<and> snd (sensorimotor_connect ! 10) = 1"
proof -
  have h: "(3::nat) < N" "x_neuron 3 < 0" "(10::nat) < N" "x_neuron 10 \<ge> 0"
    by (simp_all add: N_def x_neuron_alt)
  show ?thesis
    using h hemifield_target [of 3] hemifield_target [of 10] by blast
qed

text \<open>The target expression itself sends position zero to index 0.\<close>

lemma sensorimotor_j_zero: "sensorimotor_j 0 = 0"
  by (simp add: sensorimotor_j_def)

lemma I_retina_le_gain: "I_retina xobj xeye xn \<le> gain"
  by (simp add: I_retina_def gain_def)

text \<open>
  Claim C7. With \<open>N = 20\<close> the width of the receptive field is \<open>2 / N = 0.1\<close>, and a
  retinal unit whose position is exactly aligned with the target
  (\<open>x_object - x_eye - x_neuron k = 0\<close>) has the drive \<open>I = gain = 4\<close>, which is the
  maximum of the drive.
\<close>

theorem aligned_drive_is_gain:
  "N = 20 \<and> width = 2 / real N \<and> width = 1 / 10 \<and> gain = 4 \<and>
   (xobj - xeye - x_neuron k = 0 \<longrightarrow> I_retina xobj xeye (x_neuron k) = 4) \<and>
   I_retina xobj xeye (x_neuron k) \<le> 4"
  using I_retina_le_gain [of xobj xeye "x_neuron k"]
  by (simp add: I_retina_def gain_def width_def N_def)

theorem aligned_drive_is_gain_witness:
  "1 - 0 - x_neuron 19 = 0 \<and> I_retina 1 0 (x_neuron 19) = 4"
proof -
  have h: "1 - 0 - x_neuron 19 = 0" by (simp add: x_neuron_alt)
  with aligned_drive_is_gain [of 1 0 19] show ?thesis by blast
qed

section \<open>One time step\<close>

subsection \<open>Constants of the clock\<close>

lemma decay_eq: "dt / taum = 1 / 200"
  by (simp add: dt_def taum_def ms_def)

lemma exp_decay_bounds: "0 < exp (- dt / taum)" "exp (- dt / taum) < 1"
  by (simp_all add: dt_def taum_def ms_def)

lemma exp_decay_ge: "199 / 200 \<le> exp (- dt / taum)"
  using exp_ge_add_one_self [of "- (1 / 200) :: real"] by (simp add: decay_eq)

lemma exact_moto_le: "0 \<le> v \<Longrightarrow> exact_moto v \<le> v"
  using exp_decay_bounds(2) by (simp add: exact_moto_def mult_left_le)

lemma exact_moto_nonneg: "0 \<le> v \<Longrightarrow> 0 \<le> exact_moto v"
  by (simp add: exact_moto_def)

subsection \<open>Synaptic events\<close>

lemma length_on_pre [simp]: "length (on_pre conn w spikes target) = length target"
  by (simp add: on_pre_def)

lemma length_reset [simp]: "length (reset spikes v) = length v"
  by (simp add: reset_def)

lemma nth_reset: "i < length v \<Longrightarrow> reset spikes v ! i = (if i \<in> set spikes then 0 else v ! i)"
  by (simp add: reset_def)

lemma motosynapses_connect_table: "motosynapses_connect = [(0, 0), (1, 0)]"
  by (simp add: motosynapses_connect_def upt_rec)

lemma on_pre_motosynapses:
  "on_pre motosynapses_connect motosynapses_w spikes [y] ! 0 =
     y + (if 0 \<in> set spikes then - (1 / 2) else 0) + (if 1 \<in> set spikes then 1 / 2 else 0)"
  by (simp add: on_pre_def motosynapses_connect_table motosynapses_w_def)

lemma eye_x0_step:
  "eye_x0 (step rs s) =
     on_pre motosynapses_connect motosynapses_w (moto_spikes s) [euler_x0 s] ! 0"
  by (simp add: step_def Let_def)

text \<open>
  Claim C2. The motoneurons connect to the eye by the two synapses \<open>0 \<rightarrow> 0\<close> and
  \<open>1 \<rightarrow> 0\<close> with the weights \<open>-0.5\<close> and \<open>+0.5\<close>. In every time step, and from every
  state, the new \<open>x0\<close> is the Euler step of the relaxation \<open>dx0/dt = -x0/tau_muscle\<close>
  plus \<open>w_i\<close> for every motoneuron \<open>i\<close> that spikes in this step: the increment is applied
  in the step of the spike, without condition, and nothing else changes \<open>x0\<close>.
\<close>

theorem motoneuron_spike_increments_x0:
  "motosynapses_connect = [(0, 0), (1, 0)] \<and> motosynapses_w = [- (1 / 2), 1 / 2] \<and>
   eye_x0 (step rs s) =
     eye_x0 s + dt * (- eye_x0 s / tau_muscle)
       + (if 0 \<in> set (moto_spikes s) then - (1 / 2) else 0)
       + (if 1 \<in> set (moto_spikes s) then 1 / 2 else 0)"
  unfolding eye_x0_step on_pre_motosynapses euler_x0_def
  by (simp add: motosynapses_connect_table motosynapses_w_def)

lemma moto_spikes_example:
  "moto_spikes (init rs\<lparr>moto_v := [0, 2]\<rparr>) = [1]"
proof -
  have "exact_moto 2 > 1"
    using exp_decay_ge by (simp add: exact_moto_def)
  then show ?thesis
    by (simp add: moto_spikes_def moto_integrated_def init_def not_refractory_def upt_rec
        exact_moto_def)
qed

theorem motoneuron_spike_increments_x0_witness:
  "moto_spikes (init \<lparr>xi = \<lambda>n. 0, rand = \<lambda>i. 0\<rparr>\<lparr>moto_v := [0, 2]\<rparr>) = [1] \<and>
   eye_x0 (step \<lparr>xi = \<lambda>n. 0, rand = \<lambda>i. 0\<rparr>
            (init \<lparr>xi = \<lambda>n. 0, rand = \<lambda>i. 0\<rparr>\<lparr>moto_v := [0, 2]\<rparr>)) = 1 / 2"
proof -
  let ?rs = "\<lparr>xi = \<lambda>n. 0 :: real, rand = \<lambda>i. 0 :: real\<rparr>"
  let ?s = "init ?rs\<lparr>moto_v := [0, 2]\<rparr>"
  have m: "moto_spikes ?s = [1]" by (rule moto_spikes_example)
  have z: "eye_x0 ?s = 0" by (simp add: init_def)
  from motoneuron_spike_increments_x0 [of ?rs ?s]
  have "eye_x0 (step ?rs ?s) =
     eye_x0 ?s + dt * (- eye_x0 ?s / tau_muscle)
       + (if 0 \<in> set (moto_spikes ?s) then - (1 / 2) else 0)
       + (if 1 \<in> set (moto_spikes ?s) then 1 / 2 else 0)"
    by blast
  then have "eye_x0 (step ?rs ?s) = 1 / 2"
    unfolding m z by simp
  with m show ?thesis by blast
qed

section \<open>Sensorimotor weights and the threshold\<close>

lemma all_less_2: "(\<forall>j<2::nat. P j) = (P 0 \<and> P 1)"
  by (auto simp: less_2_cases_iff)

lemma on_pre_single_table:
  "\<forall>k<N. \<forall>j<2. on_pre sensorimotor_connect sensorimotor_w [k] [0, 0] ! j =
     (if snd (sensorimotor_connect ! k) = j then sensorimotor_w ! k else 0)"
  unfolding all_less_N upt_N all_less_2 sensorimotor_connect_table sensorimotor_w_table
  by (simp add: on_pre_def)

text \<open>
  Claim C10. Every sensorimotor weight lies in \<open>(0, 1]\<close>; the largest is 1 (unit 0), the
  smallest \<open>1/19\<close> (unit 9). The spike of a single retinal unit \<open>k\<close>, arriving at
  motoneurons whose potential is 0, leaves every motoneuron at a potential that is not
  above the threshold \<open>v > 1\<close>, neither as it stands nor after the next integration step.
\<close>

theorem single_retinal_spike_below_threshold:
  "k < N \<Longrightarrow> j < 2 \<Longrightarrow>
     0 < sensorimotor_w ! k \<and> 1 / 19 \<le> sensorimotor_w ! k \<and> sensorimotor_w ! k \<le> 1 \<and>
     sensorimotor_w ! 0 = 1 \<and> sensorimotor_w ! 9 = 1 / 19 \<and>
     \<not> on_pre sensorimotor_connect sensorimotor_w [k] [0, 0] ! j > 1 \<and>
     \<not> exact_moto (on_pre sensorimotor_connect sensorimotor_w [k] [0, 0] ! j) > 1"
proof -
  assume k: "k < N" and j: "j < 2"
  have "\<forall>k<N. 0 < sensorimotor_w ! k \<and> 1 / 19 \<le> sensorimotor_w ! k \<and> sensorimotor_w ! k \<le> 1"
    unfolding all_less_N upt_N sensorimotor_w_table by simp
  with k have w: "0 < sensorimotor_w ! k" "1 / 19 \<le> sensorimotor_w ! k" "sensorimotor_w ! k \<le> 1"
    by blast+
  have e: "sensorimotor_w ! 0 = 1" "sensorimotor_w ! 9 = 1 / 19"
    by (simp_all add: sensorimotor_w_table)
  let ?v = "on_pre sensorimotor_connect sensorimotor_w [k] [0, 0] ! j"
  have "?v = (if snd (sensorimotor_connect ! k) = j then sensorimotor_w ! k else 0)"
    using on_pre_single_table k j by blast
  with w have v: "0 \<le> ?v" "?v \<le> 1" by auto
  with exact_moto_le [of ?v] have "exact_moto ?v \<le> 1" by linarith
  with v w e show ?thesis by simp
qed

theorem single_retinal_spike_below_threshold_witness:
  "(19::nat) < N \<and> (1::nat) < 2 \<and> sensorimotor_w ! 19 = 1 \<and>
   on_pre sensorimotor_connect sensorimotor_w [19] [0, 0] ! 1 = 1 \<and>
   \<not> exact_moto (on_pre sensorimotor_connect sensorimotor_w [19] [0, 0] ! 1) > 1"
proof -
  have h: "(19::nat) < N" "(1::nat) < 2" by (simp_all add: N_def)
  have e: "sensorimotor_w ! 19 = 1" "on_pre sensorimotor_connect sensorimotor_w [19] [0, 0] ! 1 = 1"
    by (simp_all add: sensorimotor_w_table sensorimotor_connect_table on_pre_def)
  from single_retinal_spike_below_threshold [OF h]
  have "\<not> exact_moto (on_pre sensorimotor_connect sensorimotor_w [19] [0, 0] ! 1) > 1"
    by blast
  with h e show ?thesis by blast
qed

section \<open>Frame properties of the run\<close>

lemma retina_gs_run: "retina_gs (run_steps rs n) = replicate N 0"
  by (induction n) (simp_all add: init_def step_def Let_def)

lemma length_retina_v_run: "length (retina_v (run_steps rs n)) = N"
  by (induction n) (simp_all add: init_def step_def Let_def retina_integrated_def)

lemma length_moto_v_run: "length (moto_v (run_steps rs n)) = 2"
  by (induction n) (simp_all add: init_def step_def Let_def moto_integrated_def)

lemma length_moto_lastspike_run: "length (moto_lastspike (run_steps rs n)) = 2"
  by (induction n) (simp_all add: init_def step_def Let_def)

lemma t_step_run: "t_step (run_steps rs n) = n"
  by (induction n) (simp_all add: init_def step_def Let_def)

lemma exact_retina_gs0: "exact_retina I 0 v = I + (v - I) * exp (- dt / taum)"
  by (simp add: exact_retina_def)

lemma exact_retina_flow:
  "((\<lambda>t. I + (v - I) * exp (- t / taum)) has_real_derivative
      (I - (I + (v - I) * exp (- t / taum))) / taum) (at t)"
  by (auto intro!: derivative_eq_intros simp: taum_def ms_def field_simps)

text \<open>
  Claim C9. No time step writes \<open>gs\<close>: after any number of steps every retinal unit has
  \<open>gs = 0\<close>, so the integration of a retinal unit over a step is the flow
  \<open>I + (v - I) * exp (- dt / taum)\<close> of the equation \<open>dv/dt = (I - v)/taum\<close>.
\<close>

theorem retina_gs_stays_zero:
  "retina_gs (run_steps rs n) = replicate N 0 \<and>
   (\<forall>i<N. retina_gs (run_steps rs n) ! i = 0 \<and>
      retina_integrated (run_steps rs n) ! i =
        retina_I (run_steps rs n) i
          + (retina_v (run_steps rs n) ! i - retina_I (run_steps rs n) i) * exp (- dt / taum)) \<and>
   (\<forall>I v t. ((\<lambda>t. I + (v - I) * exp (- t / taum)) has_real_derivative
      (I - (I + (v - I) * exp (- t / taum))) / taum) (at t))"
  using exact_retina_flow
  by (simp add: retina_gs_run retina_integrated_def exact_retina_gs0)

theorem retina_gs_stays_zero_witness:
  "(0::nat) < N \<and> retina_gs (run_steps \<lparr>xi = \<lambda>n. 0, rand = \<lambda>i. 1 / 2\<rparr> 1) ! 0 = 0"
proof -
  have h: "(0::nat) < N" by (simp add: N_def)
  from retina_gs_stays_zero [of "\<lparr>xi = \<lambda>n. 0, rand = \<lambda>i. 1 / 2\<rparr>" 1]
  have "\<forall>i<N. retina_gs (run_steps \<lparr>xi = \<lambda>n. 0, rand = \<lambda>i. 1 / 2\<rparr> 1) ! i = 0"
    by blast
  with h show ?thesis by blast
qed

section \<open>The length of the run\<close>

text \<open>
  The seed, the generator behind \<^verbatim>\<open>rand()\<close> and \<^verbatim>\<open>xi\<close>, and the state the simulator
  keeps between runs are not part of the model: a run is a function of the draws it is
  given. The call \<^verbatim>\<open>run(10*second)\<close> takes 100000 steps.
\<close>

lemma run_10_seconds: "run rs (10 * second) = run_steps rs 100000"
  by (simp add: run_def second_def dt_def ms_def)

section \<open>The run without noise\<close>

lemma zip_sensorimotor:
  "zip sensorimotor_connect sensorimotor_w =
     map (\<lambda>i. ((i, sensorimotor_j (x_neuron i)), 20 * \<bar>x_neuron i\<bar> / real N)) [0..<N]"
  by (simp add: sensorimotor_connect_def sensorimotor_w_def zip_map_map zip_same_conv_map
      comp_def)

lemma on_pre_sensorimotor:
  "j < length tg \<Longrightarrow>
     on_pre sensorimotor_connect sensorimotor_w spk tg ! j =
       tg ! j + drive_load j (\<lambda>i. if i \<in> set spk then 1 else 0)"
proof -
  have "(\<lambda>i. if sensorimotor_j (x_neuron i) = j \<and> i \<in> set spk
              then 20 * \<bar>x_neuron i\<bar> / real N else 0) =
        (\<lambda>i. if sensorimotor_j (x_neuron i) = j
              then 20 * \<bar>x_neuron i\<bar> / real N * (if i \<in> set spk then 1 else 0) else 0)"
    by (intro ext) simp
  then show "j < length tg \<Longrightarrow> ?thesis"
    by (simp add: on_pre_def zip_sensorimotor filter_map comp_def sum_list_map_filter'
        case_prod_unfold drive_load_def)
qed

lemma drive_load_mono:
  "(\<And>i. i < N \<Longrightarrow> f i \<le> g i) \<Longrightarrow> drive_load j f \<le> drive_load j g"
proof -
  assume h: "\<And>i. i < N \<Longrightarrow> f i \<le> g i"
  have "20 * \<bar>x_neuron i\<bar> / real N * f i \<le> 20 * \<bar>x_neuron i\<bar> / real N * g i"
    if "i < N" for i
    using h [OF that] by (intro mult_left_mono) simp_all
  then show ?thesis
    unfolding drive_load_def by (intro sum_list_mono) simp
qed

lemma drive_load_add: "drive_load j (\<lambda>i. f i + g i) = drive_load j f + drive_load j g"
proof -
  have "(\<lambda>i. if sensorimotor_j (x_neuron i) = j
               then 20 * \<bar>x_neuron i\<bar> / real N * (f i + g i) else 0) =
        (\<lambda>i. (if sensorimotor_j (x_neuron i) = j then 20 * \<bar>x_neuron i\<bar> / real N * f i else 0)
            + (if sensorimotor_j (x_neuron i) = j then 20 * \<bar>x_neuron i\<bar> / real N * g i else 0))"
    by (intro ext) (simp add: algebra_simps add_divide_distrib)
  then show ?thesis
    by (simp add: drive_load_def sum_list_addf)
qed

lemma drive_load_scale: "drive_load j (\<lambda>i. c * f i) = c * drive_load j f"
proof -
  have "(\<lambda>i. if sensorimotor_j (x_neuron i) = j
               then 20 * \<bar>x_neuron i\<bar> / real N * (c * f i) else 0) =
        (\<lambda>i. c * (if sensorimotor_j (x_neuron i) = j then 20 * \<bar>x_neuron i\<bar> / real N * f i else 0))"
    by (intro ext) (simp add: algebra_simps)
  then show ?thesis
    by (simp add: drive_load_def sum_list_const_mult)
qed

lemma drive_load_nonneg: "(\<And>i. i < N \<Longrightarrow> 0 \<le> f i) \<Longrightarrow> 0 \<le> drive_load j f"
  unfolding drive_load_def
  by (rule sum_list_nonneg) auto

lemma I_retina_nonneg: "0 \<le> I_retina a b c"
  by (simp add: I_retina_def gain_def)

lemma exp_neg_le: "0 \<le> y \<Longrightarrow> exp (- y) \<le> 1 / (1 + y)" for y :: real
proof -
  assume y: "0 \<le> y"
  have "1 + y \<le> exp y" by (rule exp_ge_add_one_self)
  with y have "1 / exp y \<le> 1 / (1 + y)"
    by (intro divide_left_mono) (auto simp: add_pos_nonneg)
  then show ?thesis by (simp add: exp_minus inverse_eq_divide)
qed

lemma I_retina_rest_le: "I_retina 0 0 xn \<le> 4 / (1 + (10 * xn)\<^sup>2)"
proof -
  have "exp (- ((10 * xn)\<^sup>2)) \<le> 1 / (1 + (10 * xn)\<^sup>2)"
    by (rule exp_neg_le) simp
  then show ?thesis
    by (simp add: I_retina_def gain_def width_def N_def power2_eq_square)
qed

lemma drive_load_rest_less_1: "drive_load j (\<lambda>i. I_retina 0 0 (x_neuron i)) < 1"
proof -
  have "drive_load j (\<lambda>i. I_retina 0 0 (x_neuron i))
          \<le> drive_load j (\<lambda>i. 4 / (1 + (10 * x_neuron i)\<^sup>2))"
    by (rule drive_load_mono) (rule I_retina_rest_le)
  also have "\<dots> < 1"
    unfolding drive_load_def upt_N
    by (simp add: x_neuron_alt sensorimotor_j_def N_def power2_eq_square)
  finally show ?thesis .
qed

lemma retina_integrated_nth:
  "i < N \<Longrightarrow> retina_integrated s ! i =
     exact_retina (retina_I s i) (retina_gs s ! i) (retina_v s ! i)"
  by (simp add: retina_integrated_def)

lemma length_retina_integrated [simp]: "length (retina_integrated s) = N"
  by (simp add: retina_integrated_def)

lemma length_moto_integrated [simp]: "length (moto_integrated s) = length (moto_v s)"
  by (simp add: moto_integrated_def)

lemma retina_spikes_iff: "i \<in> set (retina_spikes s) \<longleftrightarrow> i < N \<and> retina_integrated s ! i > 1"
  by (auto simp: retina_spikes_def)

lemma moto_spikes_iff:
  "j \<in> set (moto_spikes s) \<longleftrightarrow>
     j < length (moto_v s) \<and> moto_integrated s ! j > 1 \<and>
     not_refractory (t_step s) (moto_lastspike s ! j)"
  by (auto simp: moto_spikes_def)

lemma moto_v_step:
  "j < length (moto_v s) \<Longrightarrow>
     moto_v (step rs s) ! j =
       (if j \<in> set (moto_spikes s) then 0
        else exact_moto (moto_v s ! j)
               + drive_load j (\<lambda>i. if i \<in> set (retina_spikes s) then 1 else 0))"
  by (simp add: step_def Let_def nth_reset on_pre_sensorimotor moto_integrated_def)

lemma retina_v_step:
  "i < N \<Longrightarrow>
     retina_v (step rs s) ! i =
       (if retina_integrated s ! i > 1 then 0 else retina_integrated s ! i)"
  by (simp add: step_def Let_def nth_reset retina_spikes_iff)

lemma quiescent_no_moto_spike:
  assumes "quiescent s"
  shows "moto_spikes s = []"
proof -
  have "\<not> moto_integrated s ! j > 1" if "j < 2" for j
  proof -
    have u: "0 \<le> moto_v s ! j"
      and b: "moto_v s ! j + drive_load j (\<lambda>i. retina_v s ! i)
          \<le> drive_load j (\<lambda>i. I_retina 0 0 (x_neuron i))"
      using assms that by (auto simp: quiescent_def)
    have "0 \<le> drive_load j (\<lambda>i. retina_v s ! i)"
      using assms by (intro drive_load_nonneg) (simp add: quiescent_def)
    with b drive_load_rest_less_1 [of j] have "moto_v s ! j < 1" by linarith
    with exact_moto_le [OF u] have "exact_moto (moto_v s ! j) < 1" by linarith
    moreover have "length (moto_v s) = 2" using assms by (simp add: quiescent_def)
    ultimately show ?thesis using that by (simp add: moto_integrated_def)
  qed
  moreover have "length (moto_v s) = 2" using assms by (simp add: quiescent_def)
  ultimately show ?thesis
    by (simp add: moto_spikes_def filter_empty_conv)
qed

lemma quiescent_step:
  assumes q: "quiescent s" and z: "xi rs (t_step s) = 0"
  shows "quiescent (step rs s)"
proof -
  let ?a = "exp (- dt / taum)"
  let ?I = "\<lambda>i. I_retina 0 0 (x_neuron i)"
  let ?v = "\<lambda>i. retina_v s ! i"
  let ?vi = "\<lambda>i. retina_integrated s ! i"
  let ?ind = "\<lambda>i. if i \<in> set (retina_spikes s) then 1 else 0 :: real"
  have a: "0 < ?a" "?a < 1" by (rule exp_decay_bounds)+
  have ms: "moto_spikes s = []" using q by (rule quiescent_no_moto_spike)
  have len: "length (moto_v s) = 2" "length (retina_v s) = N"
    and gs: "retina_gs s = replicate N 0"
    and v0: "\<And>i. i < N \<Longrightarrow> 0 \<le> ?v i"
    and eye: "eye_x s = 0" "eye_velocity s = 0" "eye_x0 s = 0" "eye_x_object s = 0"
      "eye_noise s = 0" "S_motoneurons s = []"
    using q by (simp_all add: quiescent_def)
  have vi: "?vi i = ?a * ?v i + (1 - ?a) * ?I i" if "i < N" for i
    using that by (simp add: retina_integrated_nth gs exact_retina_gs0 retina_I_def eye
        algebra_simps)
  have vi0: "0 \<le> ?vi i" if "i < N" for i
    using that v0 [OF that] a I_retina_nonneg [of 0 0 "x_neuron i"] by (simp add: vi)
  have eye': "eye_x (step rs s) = 0" "eye_velocity (step rs s) = 0" "eye_x0 (step rs s) = 0"
    "eye_x_object (step rs s) = 0" "eye_noise (step rs s) = 0" "S_motoneurons (step rs s) = []"
    using z by (simp_all add: eye_x0_step on_pre_motosynapses ms)
      (simp_all add: step_def Let_def eye ms euler_x_def euler_velocity_def euler_x0_def
        euler_x_object_def euler_noise_def)
  have len': "length (moto_v (step rs s)) = 2" "length (retina_v (step rs s)) = N"
    "retina_gs (step rs s) = replicate N 0"
    by (simp_all add: step_def Let_def len gs)
  have rv: "0 \<le> retina_v (step rs s) ! i" if "i < N" for i
    using that vi0 [OF that] by (simp add: retina_v_step)
  have mv: "0 \<le> moto_v (step rs s) ! j \<and>
      moto_v (step rs s) ! j + drive_load j (\<lambda>i. retina_v (step rs s) ! i) \<le> drive_load j ?I"
    if j: "j < 2" for j
  proof -
    have u: "0 \<le> moto_v s ! j"
      and b: "moto_v s ! j + drive_load j ?v \<le> drive_load j ?I"
      using q j by (auto simp: quiescent_def)
    have m: "moto_v (step rs s) ! j = exact_moto (moto_v s ! j) + drive_load j ?ind"
      using j by (simp add: moto_v_step len ms)
    have i0: "0 \<le> drive_load j ?ind"
      by (intro drive_load_nonneg) simp
    have "drive_load j ?ind + drive_load j (\<lambda>i. retina_v (step rs s) ! i)
            = drive_load j (\<lambda>i. ?ind i + retina_v (step rs s) ! i)"
      by (simp add: drive_load_add)
    also have "\<dots> \<le> drive_load j ?vi"
      by (intro drive_load_mono) (auto simp: retina_v_step retina_spikes_iff)
    also have "\<dots> = drive_load j (\<lambda>i. ?a * ?v i + (1 - ?a) * ?I i)"
      unfolding drive_load_def by (intro arg_cong [where f = sum_list] map_cong) (simp_all add: vi)
    also have "\<dots> = ?a * drive_load j ?v + (1 - ?a) * drive_load j ?I"
      by (simp add: drive_load_add drive_load_scale)
    finally have t: "drive_load j ?ind + drive_load j (\<lambda>i. retina_v (step rs s) ! i)
        \<le> ?a * drive_load j ?v + (1 - ?a) * drive_load j ?I" .
    have "?a * (moto_v s ! j + drive_load j ?v) \<le> ?a * drive_load j ?I"
      using b a by (intro mult_left_mono) simp_all
    then have "exact_moto (moto_v s ! j) + ?a * drive_load j ?v \<le> ?a * drive_load j ?I"
      by (simp add: exact_moto_def algebra_simps)
    with t have "exact_moto (moto_v s ! j) + drive_load j ?ind
        + drive_load j (\<lambda>i. retina_v (step rs s) ! i) \<le> drive_load j ?I"
      by (simp add: algebra_simps)
    with m i0 exact_moto_nonneg [OF u] show ?thesis by simp
  qed
  show ?thesis
    unfolding quiescent_def using eye' len' rv mv by blast
qed

lemma drive_load_cong:
  "(\<And>i. i < N \<Longrightarrow> f i = g i) \<Longrightarrow> drive_load j f = drive_load j g"
  unfolding drive_load_def by (intro arg_cong [where f = sum_list] map_cong) simp_all

lemma drive_load_zero: "drive_load j (\<lambda>i. 0) = 0"
  by (simp add: drive_load_def cong: if_cong)

lemma quiescent_init:
  assumes "\<forall>i<N. rand rs i = 0"
  shows "quiescent (init rs)"
proof -
  have "drive_load j (\<lambda>i. retina_v (init rs) ! i) = drive_load j (\<lambda>i. 0)" for j
    using assms by (intro drive_load_cong) (simp add: init_def)
  then have "drive_load j (\<lambda>i. retina_v (init rs) ! i) = 0" for j
    by (simp add: drive_load_zero)
  moreover have "0 \<le> drive_load j (\<lambda>i. I_retina 0 0 (x_neuron i))" for j
    by (intro drive_load_nonneg I_retina_nonneg)
  moreover have "moto_v (init rs) ! j = 0" if "j < 2" for j
    using that by (simp add: init_def)
  moreover have "retina_v (init rs) ! i = 0" if "i < N" for i
    using that assms by (simp add: init_def)
  ultimately show ?thesis
    by (simp add: quiescent_def) (simp add: init_def)
qed

lemma quiescent_run:
  assumes "\<forall>n. xi rs n = 0" and "\<forall>i<N. rand rs i = 0"
  shows "quiescent (run_steps rs n)"
proof (induction n)
  case 0
  show ?case using assms(2) by (simp add: quiescent_init)
next
  case (Suc n)
  then show ?case using assms(1) by (simp add: quiescent_step)
qed

lemma quiescent_M:
  assumes "\<forall>n. xi rs n = 0" and "\<forall>i<N. rand rs i = 0"
  shows "M (run_steps rs n) = replicate n (0, 0, 0)"
proof (induction n)
  case 0
  show ?case by (simp add: init_def)
next
  case (Suc n)
  have "quiescent (run_steps rs n)" using assms by (rule quiescent_run)
  then have "eye_x (run_steps rs n) = 0" "eye_x0 (run_steps rs n) = 0"
    "eye_x_object (run_steps rs n) = 0"
    by (simp_all add: quiescent_def)
  with Suc show ?case
    by (simp add: step_def Let_def replicate_append_same)
qed

text \<open>
  Claim C3. In a run whose noise draws are all 0 and whose retinal potentials start at 0
  (the motoneurons start at 0 in every run), the noise and \<open>x_object\<close> are 0 after any
  number of steps and no motoneuron spikes in any step; in particular the run of 10
  seconds records no motoneuron spike and the trace of \<open>x_object\<close> is 0 throughout.
  Retinal units are not required to be silent: the load that their potentials and drives
  put on a motoneuron stays below the threshold.
\<close>

theorem zero_drive_zero_spikes:
  assumes "\<forall>n. xi rs n = 0" and "\<forall>i<N. rand rs i = 0"
  shows "eye_noise (run_steps rs n) = 0 \<and> eye_x_object (run_steps rs n) = 0 \<and>
    moto_spikes (run_steps rs n) = [] \<and> S_motoneurons (run_steps rs n) = [] \<and>
    eye_x_object (run rs (10 * second)) = 0 \<and>
    S_motoneurons (run rs (10 * second)) = [] \<and>
    map (\<lambda>(x, x0, xobj). xobj) (M (run rs (10 * second))) = replicate 100000 0"
proof -
  have q: "quiescent (run_steps rs m)" for m using assms by (rule quiescent_run)
  have m: "M (run_steps rs 100000) = replicate 100000 (0, 0, 0)"
    using assms by (rule quiescent_M)
  show ?thesis
    using q [of n] q [of 100000] quiescent_no_moto_spike [OF q [of n]]
    unfolding run_10_seconds m
    by (simp add: quiescent_def)
qed

theorem zero_drive_zero_spikes_witness:
  "S_motoneurons (run \<lparr>xi = \<lambda>n. 0, rand = \<lambda>i. 0\<rparr> (10 * second)) = [] \<and>
   eye_x_object (run \<lparr>xi = \<lambda>n. 0, rand = \<lambda>i. 0\<rparr> (10 * second)) = 0"
proof -
  let ?rs = "\<lparr>xi = \<lambda>n. 0 :: real, rand = \<lambda>i. 0 :: real\<rparr>"
  have h1: "\<forall>n. xi ?rs n = 0" by simp
  have h2: "\<forall>i<N. rand ?rs i = 0" by simp
  from zero_drive_zero_spikes [OF h1 h2, of 0]
  have "S_motoneurons (run ?rs (10 * second)) = [] \<and> eye_x_object (run ?rs (10 * second)) = 0"
    by blast
  then show ?thesis .
qed

section \<open>A run with retinal spikes during the refractory window\<close>

subsection \<open>Numeric bounds\<close>

lemma exp_neg_le_quadratic: "0 \<le> y \<Longrightarrow> exp (- y) \<le> 1 / (1 + y + y\<^sup>2 / 2)" for y :: real
proof -
  assume y: "0 \<le> y"
  have "1 + y + y\<^sup>2 / 2 \<le> exp y" using y by (rule exp_lower_Taylor_quadratic)
  moreover have "0 < 1 + y + y\<^sup>2 / 2" using y by (simp add: add_pos_nonneg)
  ultimately have "1 / exp y \<le> 1 / (1 + y + y\<^sup>2 / 2)"
    by (intro divide_left_mono) simp_all
  then show ?thesis by (simp add: exp_minus inverse_eq_divide)
qed

lemma exp_neg_ge_quadratic:
  "0 \<le> y \<Longrightarrow> y \<le> 1 \<Longrightarrow> 1 / (1 + y + y\<^sup>2) \<le> exp (- y)" for y :: real
proof -
  assume y: "0 \<le> y" "y \<le> 1"
  then have "exp y \<le> 1 + y + y\<^sup>2" by (rule exp_bound)
  moreover have "0 < (1 + y + y\<^sup>2) * exp y"
    using y by (intro mult_pos_pos) (simp_all add: add_pos_nonneg)
  ultimately have "1 / (1 + y + y\<^sup>2) \<le> 1 / exp y"
    by (intro divide_left_mono) simp_all
  then show ?thesis by (simp add: exp_minus inverse_eq_divide)
qed

lemma exp_decay_le: "exp (- dt / taum) \<le> 995013 / 1000000"
proof -
  have "exp (- (1 / 200 :: real)) \<le> 1 / (1 + 1 / 200 + (1 / 200)\<^sup>2 / 2)"
    using exp_neg_le_quadratic [of "1 / 200"] by simp
  also have "\<dots> \<le> 995013 / 1000000" by (simp add: power2_eq_square)
  finally show ?thesis by (simp add: decay_eq)
qed

lemma noise_coefficient: "tau_object powr (- (1 / 2)) * sqrt dt = sqrt 2 / 100"
proof -
  have "tau_object powr (- (1 / 2)) = inverse (sqrt (1 / 2))"
    by (simp add: tau_object_def ms_def powr_minus powr_half_sqrt)
  also have "\<dots> = sqrt 2"
    by (simp add: real_sqrt_divide)
  finally have a: "tau_object powr (- (1 / 2)) = sqrt 2" .
  have "sqrt dt = sqrt ((1 / 100)\<^sup>2)"
    by (simp add: dt_def ms_def power2_eq_square)
  then have b: "sqrt dt = 1 / 100" by (simp only: real_sqrt_abs)
  show ?thesis by (simp add: a b)
qed

lemma euler_noise_sqrt2:
  "euler_noise (q * sqrt 2) s = eye_noise s * (4999 / 5000) + q / 50"
proof -
  have "tau_object powr (- (1 / 2)) * sqrt dt * (q * sqrt 2) = sqrt 2 / 100 * (q * sqrt 2)"
    by (simp only: noise_coefficient)
  also have "\<dots> = q / 50" by simp
  finally show ?thesis
    by (simp add: euler_noise_def dt_def tau_object_def ms_def algebra_simps)
qed

lemma euler_x_object_eq:
  "euler_x_object s = eye_x_object s * (4999 / 5000) + eye_noise s / 5000"
  by (simp add: euler_x_object_def dt_def tau_object_def ms_def field_simps)

subsection \<open>Bands of retinal potentials\<close>

lemma exact_retina_bounds:
  assumes "l \<le> v" "v \<le> h" "0 \<le> l" "Il \<le> I" "I \<le> Ih" "0 \<le> Il"
  shows "995 / 1000 * l + 4987 / 1000000 * Il \<le> exact_retina I 0 v"
    and "exact_retina I 0 v \<le> 995013 / 1000000 * h + 5 / 1000 * Ih"
proof -
  define a where "a = exp (- dt / taum)"
  have a: "995 / 1000 \<le> a" "a \<le> 995013 / 1000000"
    using exp_decay_ge exp_decay_le by (simp_all add: a_def)
  then have na: "4987 / 1000000 \<le> 1 - a" "1 - a \<le> 5 / 1000" "0 \<le> a" "0 \<le> 1 - a"
    by linarith+
  have e: "exact_retina I 0 v = a * v + (1 - a) * I"
    by (simp add: exact_retina_gs0 algebra_simps a_def)
  have v0: "0 \<le> v" "0 \<le> I" using assms by linarith+
  have "995 / 1000 * l \<le> a * v"
    using a(1) assms(1,3) na(3) by (intro mult_mono) simp_all
  moreover have "4987 / 1000000 * Il \<le> (1 - a) * I"
    using na(1,4) assms(4,6) by (intro mult_mono) simp_all
  ultimately show "995 / 1000 * l + 4987 / 1000000 * Il \<le> exact_retina I 0 v"
    unfolding e by linarith
  have "a * v \<le> 995013 / 1000000 * h"
    using a(2) assms(2) v0 na(3) by (intro mult_mono) simp_all
  moreover have "(1 - a) * I \<le> 5 / 1000 * Ih"
    using na(2,4) assms(5) v0 by (intro mult_mono) simp_all
  ultimately show "exact_retina I 0 v \<le> 995013 / 1000000 * h + 5 / 1000 * Ih"
    unfolding e by linarith
qed

lemma band_nth:
  "band v la ha lb hb hc \<Longrightarrow> i < N \<Longrightarrow>
     (if i = 18 \<or> i = 19 then la \<le> v ! i \<and> v ! i \<le> ha
      else if i = 16 \<or> i = 17 then lb \<le> v ! i \<and> v ! i \<le> hb
      else 0 \<le> v ! i \<and> v ! i \<le> hc)"
  by (simp add: band_def)

lemma bandI:
  assumes "length v = N"
    and "\<And>i. i < N \<Longrightarrow> i = 18 \<or> i = 19 \<Longrightarrow> la \<le> v ! i \<and> v ! i \<le> ha"
    and "\<And>i. i < N \<Longrightarrow> i = 16 \<or> i = 17 \<Longrightarrow> lb \<le> v ! i \<and> v ! i \<le> hb"
    and "\<And>i. i < N \<Longrightarrow> i \<noteq> 16 \<Longrightarrow> i \<noteq> 17 \<Longrightarrow> i \<noteq> 18 \<Longrightarrow> i \<noteq> 19 \<Longrightarrow>
            0 \<le> v ! i \<and> v ! i \<le> hc"
  shows "band v la ha lb hb hc"
  unfolding band_def using assms by simp

lemma band_mono:
  assumes b: "band v la ha lb hb hc"
    and le: "la' \<le> la" "ha \<le> ha'" "lb' \<le> lb" "hb \<le> hb'" "hc \<le> hc'"
  shows "band v la' ha' lb' hb' hc'"
proof (rule bandI)
  show "length v = N" using b by (simp add: band_def)
next
  fix i assume i: "i < N" "i = 18 \<or> i = 19"
  with band_nth [OF b i(1)] have "la \<le> v ! i \<and> v ! i \<le> ha" by simp
  with le show "la' \<le> v ! i \<and> v ! i \<le> ha'" by linarith
next
  fix i assume i: "i < N" "i = 16 \<or> i = 17"
  with band_nth [OF b i(1)] have "lb \<le> v ! i \<and> v ! i \<le> hb" by auto
  with le show "lb' \<le> v ! i \<and> v ! i \<le> hb'" by linarith
next
  fix i assume i: "i < N" "i \<noteq> 16" "i \<noteq> 17" "i \<noteq> 18" "i \<noteq> 19"
  with band_nth [OF b i(1)] have "0 \<le> v ! i \<and> v ! i \<le> hc" by simp
  with le show "0 \<le> v ! i \<and> v ! i \<le> hc'" by linarith
qed

lemma band_integrated:
  assumes b: "band (retina_v s) la ha lb hb hc"
    and gs: "retina_gs s = replicate N 0"
    and IA: "\<And>i. i = 18 \<or> i = 19 \<Longrightarrow> IlA \<le> retina_I s i \<and> retina_I s i \<le> IhA"
    and IB: "\<And>i. i = 16 \<or> i = 17 \<Longrightarrow> IlB \<le> retina_I s i \<and> retina_I s i \<le> IhB"
    and nn: "0 \<le> la" "0 \<le> lb" "0 \<le> IlA" "0 \<le> IlB"
  shows "band (retina_integrated s)
           (995 / 1000 * la + 4987 / 1000000 * IlA) (995013 / 1000000 * ha + 5 / 1000 * IhA)
           (995 / 1000 * lb + 4987 / 1000000 * IlB) (995013 / 1000000 * hb + 5 / 1000 * IhB)
           (hc + 1 / 50)"
proof (rule bandI)
  show "length (retina_integrated s) = N" by simp
next
  fix i assume i: "i < N" "i = 18 \<or> i = 19"
  with band_nth [OF b i(1)] have v: "la \<le> retina_v s ! i" "retina_v s ! i \<le> ha" by simp_all
  from IA [OF i(2)] have I: "IlA \<le> retina_I s i" "retina_I s i \<le> IhA" by simp_all
  show "995 / 1000 * la + 4987 / 1000000 * IlA \<le> retina_integrated s ! i \<and>
        retina_integrated s ! i \<le> 995013 / 1000000 * ha + 5 / 1000 * IhA"
    using exact_retina_bounds [OF v nn(1) I nn(3)] i(1)
    by (simp add: retina_integrated_nth gs)
next
  fix i assume i: "i < N" "i = 16 \<or> i = 17"
  with band_nth [OF b i(1)] have v: "lb \<le> retina_v s ! i" "retina_v s ! i \<le> hb" by auto
  from IB [OF i(2)] have I: "IlB \<le> retina_I s i" "retina_I s i \<le> IhB" by simp_all
  show "995 / 1000 * lb + 4987 / 1000000 * IlB \<le> retina_integrated s ! i \<and>
        retina_integrated s ! i \<le> 995013 / 1000000 * hb + 5 / 1000 * IhB"
    using exact_retina_bounds [OF v nn(2) I nn(4)] i(1)
    by (simp add: retina_integrated_nth gs)
next
  fix i assume i: "i < N" "i \<noteq> 16" "i \<noteq> 17" "i \<noteq> 18" "i \<noteq> 19"
  with band_nth [OF b i(1)] have v: "0 \<le> retina_v s ! i" "retina_v s ! i \<le> hc" by simp_all
  have I: "0 \<le> retina_I s i" "retina_I s i \<le> 4"
    using I_retina_nonneg I_retina_le_gain by (simp_all add: retina_I_def gain_def)
  from exact_retina_bounds [OF v order_refl I order_refl]
  have "0 \<le> exact_retina (retina_I s i) 0 (retina_v s ! i)"
    and "exact_retina (retina_I s i) 0 (retina_v s ! i) \<le> 995013 / 1000000 * hc + 5 / 1000 * 4"
    by simp_all
  moreover have "0 \<le> hc" using v by linarith
  ultimately show "0 \<le> retina_integrated s ! i \<and> retina_integrated s ! i \<le> hc + 1 / 50"
    using i(1) by (simp add: retina_integrated_nth gs)
qed

lemma filter_upt_N_eq:
  assumes "\<And>i. i < N \<Longrightarrow> P i = Q i"
  shows "filter P [0..<N] = filter Q [0..<N]"
  using assms by (intro filter_cong) simp_all

lemma retina_quiet_step:
  assumes b: "band (retina_integrated s) la ha lb hb hc"
    and le: "ha \<le> 1" "hb \<le> 1" "hc \<le> 1"
  shows "retina_spikes s = []" and "band (retina_v (step rs s)) la ha lb hb hc"
proof -
  have q: "\<not> retina_integrated s ! i > 1" if "i < N" for i
    using band_nth [OF b that] le by (auto split: if_splits)
  then show "retina_spikes s = []"
    by (simp add: retina_spikes_def filter_empty_conv)
  have "retina_v (step rs s) ! i = retina_integrated s ! i" if "i < N" for i
    using q [OF that] that by (simp add: retina_v_step)
  moreover have "length (retina_v (step rs s)) = N"
    by (simp add: step_def Let_def)
  ultimately show "band (retina_v (step rs s)) la ha lb hb hc"
    using b unfolding band_def by simp
qed

lemma retina_A_fires_step:
  assumes b: "band (retina_integrated s) la ha lb hb hc"
    and le: "1 < la" "hb \<le> 1" "hc \<le> 1"
  shows "retina_spikes s = [18, 19]" and "band (retina_v (step rs s)) 0 0 lb hb hc"
proof -
  have q: "(retina_integrated s ! i > 1) = (i = 18 \<or> i = 19)" if "i < N" for i
    using band_nth [OF b that] le by (auto split: if_splits)
  then have "retina_spikes s = filter (\<lambda>i. i = 18 \<or> i = 19) [0..<N]"
    unfolding retina_spikes_def by (intro filter_upt_N_eq) simp
  then show "retina_spikes s = [18, 19]"
    by (simp add: upt_N)
  have "retina_v (step rs s) ! i = (if i = 18 \<or> i = 19 then 0 else retina_integrated s ! i)"
    if "i < N" for i
    using q [OF that] that by (simp add: retina_v_step)
  moreover have "length (retina_v (step rs s)) = N"
    by (simp add: step_def Let_def)
  ultimately show "band (retina_v (step rs s)) 0 0 lb hb hc"
    using b unfolding band_def by simp
qed

lemma retina_B_fires_step:
  assumes b: "band (retina_integrated s) la ha lb hb hc"
    and le: "ha \<le> 1" "1 < lb" "hc \<le> 1"
  shows "retina_spikes s = [16, 17]" and "band (retina_v (step rs s)) la ha 0 0 hc"
proof -
  have q: "(retina_integrated s ! i > 1) = (i = 16 \<or> i = 17)" if "i < N" for i
    using band_nth [OF b that] le by (auto split: if_splits)
  then have "retina_spikes s = filter (\<lambda>i. i = 16 \<or> i = 17) [0..<N]"
    unfolding retina_spikes_def by (intro filter_upt_N_eq) simp
  then show "retina_spikes s = [16, 17]"
    by (simp add: upt_N)
  have "retina_v (step rs s) ! i = (if i = 16 \<or> i = 17 then 0 else retina_integrated s ! i)"
    if "i < N" for i
    using q [OF that] that by (simp add: retina_v_step)
  moreover have "length (retina_v (step rs s)) = N"
    by (simp add: step_def Let_def)
  ultimately show "band (retina_v (step rs s)) la ha 0 0 hc"
    using b unfolding band_def by simp
qed

subsection \<open>Bounds of the drive\<close>

lemma I_retina_upper:
  "I_retina xo xe xn \<le> 4 / (1 + ((xo - xe - xn) * 10)\<^sup>2 + (((xo - xe - xn) * 10)\<^sup>2)\<^sup>2 / 2)"
proof -
  have "exp (- (((xo - xe - xn) * 10)\<^sup>2))
      \<le> 1 / (1 + ((xo - xe - xn) * 10)\<^sup>2 + (((xo - xe - xn) * 10)\<^sup>2)\<^sup>2 / 2)"
    by (rule exp_neg_le_quadratic) simp
  then show ?thesis
    by (simp add: I_retina_def gain_def width_def N_def)
qed

lemma I_retina_lower:
  assumes "((xo - xe - xn) * 10)\<^sup>2 \<le> 1"
  shows "4 / (1 + ((xo - xe - xn) * 10)\<^sup>2 + (((xo - xe - xn) * 10)\<^sup>2)\<^sup>2) \<le> I_retina xo xe xn"
proof -
  have "1 / (1 + ((xo - xe - xn) * 10)\<^sup>2 + (((xo - xe - xn) * 10)\<^sup>2)\<^sup>2)
      \<le> exp (- (((xo - xe - xn) * 10)\<^sup>2))"
    using assms by (intro exp_neg_ge_quadratic) simp_all
  then show ?thesis
    by (simp add: I_retina_def gain_def width_def N_def)
qed

lemma I_retina_far:
  assumes "i = 16 \<or> i = 17 \<or> i = 18 \<or> i = 19"
  shows "0 \<le> I_retina 0 0 (x_neuron i) \<and> I_retina 0 0 (x_neuron i) \<le> 1 / 250"
proof -
  have "I_retina 0 0 (x_neuron i) \<le> 1 / 250"
    using assms I_retina_upper [of 0 0 "x_neuron i"]
    by (auto simp: x_neuron_alt power2_eq_square)
  then show ?thesis
    using I_retina_nonneg [of 0 0 "x_neuron i"] by simp
qed

lemma I_retina_near_bounds:
  assumes d: "((xo - 0 - xn) * 10)\<^sup>2 = 100 / 361"
  shows "2954 / 1000 \<le> I_retina xo 0 xn \<and> I_retina xo 0 xn \<le> 3041 / 1000"
proof -
  have "I_retina xo 0 xn \<le> 3041 / 1000"
    using I_retina_upper [of xo 0 xn] unfolding d
    by (simp add: power2_eq_square)
  moreover have "2954 / 1000 \<le> I_retina xo 0 xn"
    using I_retina_lower [of xo 0 xn] unfolding d
    by (simp add: power2_eq_square)
  ultimately show ?thesis by simp
qed

lemma I_retina_near_18_19:
  assumes "i = 18 \<or> i = 19"
  shows "2954 / 1000 \<le> I_retina (18 / 19) 0 (x_neuron i) \<and>
         I_retina (18 / 19) 0 (x_neuron i) \<le> 3041 / 1000"
  using assms by (intro I_retina_near_bounds) (auto simp: x_neuron_alt power2_eq_square)

lemma I_retina_near_16_17:
  assumes "i = 16 \<or> i = 17"
  shows "2954 / 1000 \<le> I_retina (14 / 19) 0 (x_neuron i) \<and>
         I_retina (14 / 19) 0 (x_neuron i) \<le> 3041 / 1000"
  using assms by (intro I_retina_near_bounds) (auto simp: x_neuron_alt power2_eq_square)

lemma I_retina_mid:
  assumes "i = 16 \<or> i = 17"
  shows "0 \<le> I_retina (18 / 19) 0 (x_neuron i) \<and> I_retina (18 / 19) 0 (x_neuron i) \<le> 606 / 1000"
proof -
  have "I_retina (18 / 19) 0 (x_neuron i) \<le> 606 / 1000"
    using assms I_retina_upper [of "18 / 19" 0 "x_neuron i"]
    by (auto simp: x_neuron_alt power2_eq_square)
  then show ?thesis
    using I_retina_nonneg [of "18 / 19" 0 "x_neuron i"] by simp
qed

lemma I_retina_any: "0 \<le> I_retina xo xe xn \<and> I_retina xo xe xn \<le> 4"
  using I_retina_nonneg I_retina_le_gain by (simp add: gain_def)

subsection \<open>The eye and the motoneurons in one step\<close>

lemma eye_step:
  "t_step (step rs s) = Suc (t_step s)"
  "eye_x (step rs s) = eye_x s + dt * eye_velocity s"
  "eye_velocity (step rs s) =
     eye_velocity s + dt * (alpha * (eye_x0 s - eye_x s) - beta * eye_velocity s)"
  "eye_x_object (step rs s) = eye_x_object s * (4999 / 5000) + eye_noise s / 5000"
  "eye_noise (step rs s) = euler_noise (xi rs (t_step s)) s"
  by (simp_all add: step_def Let_def euler_x_def euler_velocity_def euler_x_object_eq)

lemma eye_x0_step_eq:
  "eye_x0 (step rs s) =
     eye_x0 s * (199 / 200) + (if 0 \<in> set (moto_spikes s) then - (1 / 2) else 0)
       + (if 1 \<in> set (moto_spikes s) then 1 / 2 else 0)"
  unfolding eye_x0_step on_pre_motosynapses euler_x0_def
  by (simp add: dt_def tau_muscle_def ms_def field_simps)

lemma moto_spikes_pair:
  assumes "moto_v s = [u0, u1]" "moto_lastspike s = [l0, l1]"
  shows "moto_spikes s =
     (if exact_moto u0 > 1 \<and> not_refractory (t_step s) l0 then [0] else []) @
     (if exact_moto u1 > 1 \<and> not_refractory (t_step s) l1 then [1] else [])"
  by (simp add: moto_spikes_def moto_integrated_def assms upt_rec)

lemma moto_step_pair:
  assumes "moto_v s = [u0, u1]" "moto_lastspike s = [l0, l1]"
  shows "moto_v (step rs s) =
     [if 0 \<in> set (moto_spikes s) then 0
      else exact_moto u0 + drive_load 0 (\<lambda>i. if i \<in> set (retina_spikes s) then 1 else 0),
      if 1 \<in> set (moto_spikes s) then 0
      else exact_moto u1 + drive_load 1 (\<lambda>i. if i \<in> set (retina_spikes s) then 1 else 0)]"
    and "moto_lastspike (step rs s) =
     [if 0 \<in> set (moto_spikes s) then Some (t_step s) else l0,
      if 1 \<in> set (moto_spikes s) then Some (t_step s) else l1]"
proof -
  have l: "length (moto_v s) = 2" using assms by simp
  have "length (moto_v (step rs s)) = 2"
    by (simp add: step_def Let_def l)
  moreover have "moto_v (step rs s) ! 0 = (if 0 \<in> set (moto_spikes s) then 0
      else exact_moto u0 + drive_load 0 (\<lambda>i. if i \<in> set (retina_spikes s) then 1 else 0))"
    using moto_v_step [of 0 s rs] assms by (simp add: l)
  moreover have "moto_v (step rs s) ! 1 = (if 1 \<in> set (moto_spikes s) then 0
      else exact_moto u1 + drive_load 1 (\<lambda>i. if i \<in> set (retina_spikes s) then 1 else 0))"
    using moto_v_step [of 1 s rs] assms by (simp add: l)
  ultimately show "moto_v (step rs s) =
     [if 0 \<in> set (moto_spikes s) then 0
      else exact_moto u0 + drive_load 0 (\<lambda>i. if i \<in> set (retina_spikes s) then 1 else 0),
      if 1 \<in> set (moto_spikes s) then 0
      else exact_moto u1 + drive_load 1 (\<lambda>i. if i \<in> set (retina_spikes s) then 1 else 0)]"
    by (intro nth_equalityI) (auto simp: less_Suc_eq numeral_2_eq_2)
  show "moto_lastspike (step rs s) =
     [if 0 \<in> set (moto_spikes s) then Some (t_step s) else l0,
      if 1 \<in> set (moto_spikes s) then Some (t_step s) else l1]"
    by (simp add: step_def Let_def assms upt_rec)
qed

lemma drive_load_none: "drive_load j (\<lambda>i. if i \<in> set [] then 1 else 0) = 0"
  by (simp add: drive_load_zero)

lemma drive_load_18_19:
  "drive_load 0 (\<lambda>i. if i \<in> set [18, 19] then 1 else 0) = 0"
  "drive_load 1 (\<lambda>i. if i \<in> set [18, 19] then 1 else 0) = 36 / 19"
  unfolding drive_load_def upt_N
  by (simp_all add: sensorimotor_j_def x_neuron_alt N_def)

lemma drive_load_16_17:
  "drive_load 0 (\<lambda>i. if i \<in> set [16, 17] then 1 else 0) = 0"
  "drive_load 1 (\<lambda>i. if i \<in> set [16, 17] then 1 else 0) = 28 / 19"
  unfolding drive_load_def upt_N
  by (simp_all add: sensorimotor_j_def x_neuron_alt N_def)

subsection \<open>The first seven steps of the steered run\<close>

text \<open>
  The course of the run, state by state (state \<open>n\<close> is the state at the start of step
  \<open>n\<close>):
  \<^item> steps 0 and 1: the target is at 0, nothing spikes; the first noise draw sets the noise;
  \<^item> steps 2 and 3: the target is at \<open>18/19\<close>, midway between the units 18 and 19, which
    charge and both spike in step 3; motoneuron 1 receives \<open>17/19 + 1 = 36/19\<close>;
  \<^item> step 4: motoneuron 1 crosses the threshold, spikes and is reset; the target is at
    \<open>14/19\<close>, midway between the units 16 and 17, for this and the next two steps;
  \<^item> step 5: \<open>x0\<close> has received \<open>+0.5\<close>; nothing spikes;
  \<^item> step 6: the units 16 and 17 spike; motoneuron 1, refractory, receives
    \<open>13/19 + 15/19 = 28/19\<close>;
  \<^item> state 7: motoneuron 1 is at \<open>28/19\<close> and still refractory.
  The eye, the noise and the motoneurons are followed exactly, the retinal potentials
  within bands.
\<close>

lemma run_steps_numeral:
  "run_steps rs (numeral k) = step rs (run_steps rs (pred_numeral k))"
  by (simp add: numeral_eq_Suc)

lemma xi_steered:
  "xi steered_source 0 = 4500000 / 19 * sqrt 2"
  "xi steered_source 1 = - (4498200 / 19) * sqrt 2"
  "xi steered_source 2 = - (49999991 / 950) * sqrt 2"
  "xi steered_source 3 = 49980009 / 950 * sqrt 2"
  "xi steered_source 4 = 7 / 950 * sqrt 2"
  "xi steered_source 5 = 0 * sqrt 2"
  "xi steered_source 6 = 0 * sqrt 2"
  by (simp_all add: steered_source_def)

lemma exact_moto_zero: "exact_moto 0 = 0"
  by (simp add: exact_moto_def)

lemma exact_moto_36_19: "exact_moto (36 / 19) > 1"
  using exp_decay_ge by (simp add: exact_moto_def)

lemma not_refractory_simps:
  "not_refractory n None"
  "not_refractory n (Some l) \<longleftrightarrow> real n * dt - real l * dt \<ge> refractory"
  by (simp_all add: not_refractory_def)

lemma trace_0:
  "eye_x (run_steps steered_source 0) = 0"
  "eye_velocity (run_steps steered_source 0) = 0"
  "eye_x0 (run_steps steered_source 0) = 0"
  "eye_x_object (run_steps steered_source 0) = 0"
  "eye_noise (run_steps steered_source 0) = 0"
  "moto_v (run_steps steered_source 0) = [0, 0]"
  "moto_lastspike (run_steps steered_source 0) = [None, None]"
  "band (retina_v (run_steps steered_source 0)) (199 / 200) (199 / 200) (1983 / 2000) (1983 / 2000) (0)"
  by (simp_all add: init_def steered_source_def band_def numeral_2_eq_2)

lemma integrated_0:
  "band (retina_integrated (run_steps steered_source 0)) (49501 / 50000) (49503 / 50000) (49327 / 50000) (49329 / 50000) (1 / 50)"
proof -
  have IA: "0 \<le> retina_I (run_steps steered_source 0) i \<and> retina_I (run_steps steered_source 0) i \<le> 1 / 250"
    if "i = 18 \<or> i = 19" for i
    using I_retina_far [of i] that unfolding retina_I_def trace_0(1,4) by auto
  have IB: "0 \<le> retina_I (run_steps steered_source 0) i \<and> retina_I (run_steps steered_source 0) i \<le> 1 / 250"
    if "i = 16 \<or> i = 17" for i
    using I_retina_far [of i] that unfolding retina_I_def trace_0(1,4) by auto
  have "band (retina_integrated (run_steps steered_source 0))
      (995 / 1000 * (199 / 200) + 4987 / 1000000 * (0))
      (995013 / 1000000 * (199 / 200) + 5 / 1000 * (1 / 250))
      (995 / 1000 * (1983 / 2000) + 4987 / 1000000 * (0))
      (995013 / 1000000 * (1983 / 2000) + 5 / 1000 * (1 / 250))
      (0 + 1 / 50)"
    by (rule band_integrated [OF trace_0(8) retina_gs_run IA IB]) simp_all
  then show ?thesis
    by (rule band_mono) simp_all
qed

lemma spikes_0:
  "retina_spikes (run_steps steered_source 0) = []"
  "moto_spikes (run_steps steered_source 0) = []"
proof -
  show "retina_spikes (run_steps steered_source 0) = []"
    by (rule retina_quiet_step [OF integrated_0]) simp_all
  show "moto_spikes (run_steps steered_source 0) = []"
    unfolding moto_spikes_pair [OF trace_0(6,7)]
    using exact_moto_36_19
    by (simp add: exact_moto_zero not_refractory_simps t_step_run dt_def refractory_def ms_def)
qed

lemma trace_1:
  "eye_x (run_steps steered_source 1) = 0"
  "eye_velocity (run_steps steered_source 1) = 0"
  "eye_x0 (run_steps steered_source 1) = 0"
  "eye_x_object (run_steps steered_source 1) = 0"
  "eye_noise (run_steps steered_source 1) = 90000 / 19"
  "moto_v (run_steps steered_source 1) = [0, 0]"
  "moto_lastspike (run_steps steered_source 1) = [None, None]"
  "band (retina_v (run_steps steered_source 1)) (49501 / 50000) (49503 / 50000) (49327 / 50000) (49329 / 50000) (1 / 50)"
proof -
  have S: "run_steps steered_source 1 = step steered_source (run_steps steered_source 0)"
    by (simp add: run_steps_numeral)
  show "eye_x (run_steps steered_source 1) = 0" "eye_velocity (run_steps steered_source 1) = 0" "eye_x_object (run_steps steered_source 1) = 0"
    unfolding S eye_step trace_0(1-5) by (simp_all add: dt_def alpha_def beta_def ms_def)
  show "eye_x0 (run_steps steered_source 1) = 0"
    unfolding S eye_x0_step_eq spikes_0 trace_0(1-5) by simp
  show "eye_noise (run_steps steered_source 1) = 90000 / 19"
    unfolding S eye_step t_step_run xi_steered euler_noise_sqrt2 trace_0(1-5) by simp
  show "moto_v (run_steps steered_source 1) = [0, 0]"
    unfolding S moto_step_pair [OF trace_0(6,7)] spikes_0 drive_load_none
    by (simp add: exact_moto_zero)
  show "moto_lastspike (run_steps steered_source 1) = [None, None]"
    unfolding S moto_step_pair [OF trace_0(6,7)] spikes_0 t_step_run
    by simp
  show "band (retina_v (run_steps steered_source 1)) (49501 / 50000) (49503 / 50000) (49327 / 50000) (49329 / 50000) (1 / 50)"
    unfolding S by (rule retina_quiet_step [OF integrated_0]) simp_all
qed

lemma integrated_1:
  "band (retina_integrated (run_steps steered_source 1)) (49253 / 50000) (19703 / 20000) (1227 / 1250) (12271 / 12500) (1 / 25)"
proof -
  have IA: "0 \<le> retina_I (run_steps steered_source 1) i \<and> retina_I (run_steps steered_source 1) i \<le> 1 / 250"
    if "i = 18 \<or> i = 19" for i
    using I_retina_far [of i] that unfolding retina_I_def trace_1(1,4) by auto
  have IB: "0 \<le> retina_I (run_steps steered_source 1) i \<and> retina_I (run_steps steered_source 1) i \<le> 1 / 250"
    if "i = 16 \<or> i = 17" for i
    using I_retina_far [of i] that unfolding retina_I_def trace_1(1,4) by auto
  have "band (retina_integrated (run_steps steered_source 1))
      (995 / 1000 * (49501 / 50000) + 4987 / 1000000 * (0))
      (995013 / 1000000 * (49503 / 50000) + 5 / 1000 * (1 / 250))
      (995 / 1000 * (49327 / 50000) + 4987 / 1000000 * (0))
      (995013 / 1000000 * (49329 / 50000) + 5 / 1000 * (1 / 250))
      (1 / 50 + 1 / 50)"
    by (rule band_integrated [OF trace_1(8) retina_gs_run IA IB]) simp_all
  then show ?thesis
    by (rule band_mono) simp_all
qed

lemma spikes_1:
  "retina_spikes (run_steps steered_source 1) = []"
  "moto_spikes (run_steps steered_source 1) = []"
proof -
  show "retina_spikes (run_steps steered_source 1) = []"
    by (rule retina_quiet_step [OF integrated_1]) simp_all
  show "moto_spikes (run_steps steered_source 1) = []"
    unfolding moto_spikes_pair [OF trace_1(6,7)]
    using exact_moto_36_19
    by (simp add: exact_moto_zero not_refractory_simps t_step_run dt_def refractory_def ms_def)
qed

lemma trace_2:
  "eye_x (run_steps steered_source 2) = 0"
  "eye_velocity (run_steps steered_source 2) = 0"
  "eye_x0 (run_steps steered_source 2) = 0"
  "eye_x_object (run_steps steered_source 2) = 18 / 19"
  "eye_noise (run_steps steered_source 2) = 18 / 19"
  "moto_v (run_steps steered_source 2) = [0, 0]"
  "moto_lastspike (run_steps steered_source 2) = [None, None]"
  "band (retina_v (run_steps steered_source 2)) (49253 / 50000) (19703 / 20000) (1227 / 1250) (12271 / 12500) (1 / 25)"
proof -
  have S: "run_steps steered_source 2 = step steered_source (run_steps steered_source 1)"
    by (simp add: run_steps_numeral)
  show "eye_x (run_steps steered_source 2) = 0" "eye_velocity (run_steps steered_source 2) = 0" "eye_x_object (run_steps steered_source 2) = 18 / 19"
    unfolding S eye_step trace_1(1-5) by (simp_all add: dt_def alpha_def beta_def ms_def)
  show "eye_x0 (run_steps steered_source 2) = 0"
    unfolding S eye_x0_step_eq spikes_1 trace_1(1-5) by simp
  show "eye_noise (run_steps steered_source 2) = 18 / 19"
    unfolding S eye_step t_step_run xi_steered euler_noise_sqrt2 trace_1(1-5) by simp
  show "moto_v (run_steps steered_source 2) = [0, 0]"
    unfolding S moto_step_pair [OF trace_1(6,7)] spikes_1 drive_load_none
    by (simp add: exact_moto_zero)
  show "moto_lastspike (run_steps steered_source 2) = [None, None]"
    unfolding S moto_step_pair [OF trace_1(6,7)] spikes_1 t_step_run
    by simp
  show "band (retina_v (run_steps steered_source 2)) (49253 / 50000) (19703 / 20000) (1227 / 1250) (12271 / 12500) (1 / 25)"
    unfolding S by (rule retina_quiet_step [OF integrated_1]) simp_all
qed

lemma integrated_2:
  "band (retina_integrated (run_steps steered_source 2)) (49743 / 50000) (19909 / 20000) (97669 / 100000) (48991 / 50000) (3 / 50)"
proof -
  have IA: "1477 / 500 \<le> retina_I (run_steps steered_source 2) i \<and> retina_I (run_steps steered_source 2) i \<le> 3041 / 1000"
    if "i = 18 \<or> i = 19" for i
    using I_retina_near_18_19 [of i] that unfolding retina_I_def trace_2(1,4) by auto
  have IB: "0 \<le> retina_I (run_steps steered_source 2) i \<and> retina_I (run_steps steered_source 2) i \<le> 303 / 500"
    if "i = 16 \<or> i = 17" for i
    using I_retina_mid [of i] that unfolding retina_I_def trace_2(1,4) by auto
  have "band (retina_integrated (run_steps steered_source 2))
      (995 / 1000 * (49253 / 50000) + 4987 / 1000000 * (1477 / 500))
      (995013 / 1000000 * (19703 / 20000) + 5 / 1000 * (3041 / 1000))
      (995 / 1000 * (1227 / 1250) + 4987 / 1000000 * (0))
      (995013 / 1000000 * (12271 / 12500) + 5 / 1000 * (303 / 500))
      (1 / 25 + 1 / 50)"
    by (rule band_integrated [OF trace_2(8) retina_gs_run IA IB]) simp_all
  then show ?thesis
    by (rule band_mono) simp_all
qed

lemma spikes_2:
  "retina_spikes (run_steps steered_source 2) = []"
  "moto_spikes (run_steps steered_source 2) = []"
proof -
  show "retina_spikes (run_steps steered_source 2) = []"
    by (rule retina_quiet_step [OF integrated_2]) simp_all
  show "moto_spikes (run_steps steered_source 2) = []"
    unfolding moto_spikes_pair [OF trace_2(6,7)]
    using exact_moto_36_19
    by (simp add: exact_moto_zero not_refractory_simps t_step_run dt_def refractory_def ms_def)
qed

lemma trace_3:
  "eye_x (run_steps steered_source 3) = 0"
  "eye_velocity (run_steps steered_source 3) = 0"
  "eye_x0 (run_steps steered_source 3) = 0"
  "eye_x_object (run_steps steered_source 3) = 18 / 19"
  "eye_noise (run_steps steered_source 3) = - (19982 / 19)"
  "moto_v (run_steps steered_source 3) = [0, 0]"
  "moto_lastspike (run_steps steered_source 3) = [None, None]"
  "band (retina_v (run_steps steered_source 3)) (49743 / 50000) (19909 / 20000) (97669 / 100000) (48991 / 50000) (3 / 50)"
proof -
  have S: "run_steps steered_source 3 = step steered_source (run_steps steered_source 2)"
    by (simp add: run_steps_numeral)
  show "eye_x (run_steps steered_source 3) = 0" "eye_velocity (run_steps steered_source 3) = 0" "eye_x_object (run_steps steered_source 3) = 18 / 19"
    unfolding S eye_step trace_2(1-5) by (simp_all add: dt_def alpha_def beta_def ms_def)
  show "eye_x0 (run_steps steered_source 3) = 0"
    unfolding S eye_x0_step_eq spikes_2 trace_2(1-5) by simp
  show "eye_noise (run_steps steered_source 3) = - (19982 / 19)"
    unfolding S eye_step t_step_run xi_steered euler_noise_sqrt2 trace_2(1-5) by simp
  show "moto_v (run_steps steered_source 3) = [0, 0]"
    unfolding S moto_step_pair [OF trace_2(6,7)] spikes_2 drive_load_none
    by (simp add: exact_moto_zero)
  show "moto_lastspike (run_steps steered_source 3) = [None, None]"
    unfolding S moto_step_pair [OF trace_2(6,7)] spikes_2 t_step_run
    by simp
  show "band (retina_v (run_steps steered_source 3)) (49743 / 50000) (19909 / 20000) (97669 / 100000) (48991 / 50000) (3 / 50)"
    unfolding S by (rule retina_quiet_step [OF integrated_2]) simp_all
qed

lemma integrated_3:
  "band (retina_integrated (run_steps steered_source 3)) (100461 / 100000) (10057 / 10000) (4859 / 5000) (97797 / 100000) (2 / 25)"
proof -
  have IA: "1477 / 500 \<le> retina_I (run_steps steered_source 3) i \<and> retina_I (run_steps steered_source 3) i \<le> 3041 / 1000"
    if "i = 18 \<or> i = 19" for i
    using I_retina_near_18_19 [of i] that unfolding retina_I_def trace_3(1,4) by auto
  have IB: "0 \<le> retina_I (run_steps steered_source 3) i \<and> retina_I (run_steps steered_source 3) i \<le> 303 / 500"
    if "i = 16 \<or> i = 17" for i
    using I_retina_mid [of i] that unfolding retina_I_def trace_3(1,4) by auto
  have "band (retina_integrated (run_steps steered_source 3))
      (995 / 1000 * (49743 / 50000) + 4987 / 1000000 * (1477 / 500))
      (995013 / 1000000 * (19909 / 20000) + 5 / 1000 * (3041 / 1000))
      (995 / 1000 * (97669 / 100000) + 4987 / 1000000 * (0))
      (995013 / 1000000 * (48991 / 50000) + 5 / 1000 * (303 / 500))
      (3 / 50 + 1 / 50)"
    by (rule band_integrated [OF trace_3(8) retina_gs_run IA IB]) simp_all
  then show ?thesis
    by (rule band_mono) simp_all
qed

lemma spikes_3:
  "retina_spikes (run_steps steered_source 3) = [18, 19]"
  "moto_spikes (run_steps steered_source 3) = []"
proof -
  show "retina_spikes (run_steps steered_source 3) = [18, 19]"
    by (rule retina_A_fires_step [OF integrated_3]) simp_all
  show "moto_spikes (run_steps steered_source 3) = []"
    unfolding moto_spikes_pair [OF trace_3(6,7)]
    using exact_moto_36_19
    by (simp add: exact_moto_zero not_refractory_simps t_step_run dt_def refractory_def ms_def)
qed

lemma trace_4:
  "eye_x (run_steps steered_source 4) = 0"
  "eye_velocity (run_steps steered_source 4) = 0"
  "eye_x0 (run_steps steered_source 4) = 0"
  "eye_x_object (run_steps steered_source 4) = 14 / 19"
  "eye_noise (run_steps steered_source 4) = 14 / 19"
  "moto_v (run_steps steered_source 4) = [0, 36 / 19]"
  "moto_lastspike (run_steps steered_source 4) = [None, None]"
  "band (retina_v (run_steps steered_source 4)) (0) (0) (4859 / 5000) (97797 / 100000) (2 / 25)"
proof -
  have S: "run_steps steered_source 4 = step steered_source (run_steps steered_source 3)"
    by (simp add: run_steps_numeral)
  show "eye_x (run_steps steered_source 4) = 0" "eye_velocity (run_steps steered_source 4) = 0" "eye_x_object (run_steps steered_source 4) = 14 / 19"
    unfolding S eye_step trace_3(1-5) by (simp_all add: dt_def alpha_def beta_def ms_def)
  show "eye_x0 (run_steps steered_source 4) = 0"
    unfolding S eye_x0_step_eq spikes_3 trace_3(1-5) by simp
  show "eye_noise (run_steps steered_source 4) = 14 / 19"
    unfolding S eye_step t_step_run xi_steered euler_noise_sqrt2 trace_3(1-5) by simp
  show "moto_v (run_steps steered_source 4) = [0, 36 / 19]"
    unfolding S moto_step_pair [OF trace_3(6,7)] spikes_3 drive_load_18_19
    by (simp add: exact_moto_zero)
  show "moto_lastspike (run_steps steered_source 4) = [None, None]"
    unfolding S moto_step_pair [OF trace_3(6,7)] spikes_3 t_step_run
    by simp
  show "band (retina_v (run_steps steered_source 4)) (0) (0) (4859 / 5000) (97797 / 100000) (2 / 25)"
    unfolding S by (rule retina_A_fires_step [OF integrated_3]) simp_all
qed

lemma integrated_4:
  "band (retina_integrated (run_steps steered_source 4)) (0) (1 / 50) (98167 / 100000) (9883 / 10000) (1 / 10)"
proof -
  have IA: "0 \<le> retina_I (run_steps steered_source 4) i \<and> retina_I (run_steps steered_source 4) i \<le> 4"
    if "i = 18 \<or> i = 19" for i
    using I_retina_any [of "14 / 19" 0 "x_neuron i"] that unfolding retina_I_def trace_4(1,4) by auto
  have IB: "1477 / 500 \<le> retina_I (run_steps steered_source 4) i \<and> retina_I (run_steps steered_source 4) i \<le> 3041 / 1000"
    if "i = 16 \<or> i = 17" for i
    using I_retina_near_16_17 [of i] that unfolding retina_I_def trace_4(1,4) by auto
  have "band (retina_integrated (run_steps steered_source 4))
      (995 / 1000 * (0) + 4987 / 1000000 * (0))
      (995013 / 1000000 * (0) + 5 / 1000 * (4))
      (995 / 1000 * (4859 / 5000) + 4987 / 1000000 * (1477 / 500))
      (995013 / 1000000 * (97797 / 100000) + 5 / 1000 * (3041 / 1000))
      (2 / 25 + 1 / 50)"
    by (rule band_integrated [OF trace_4(8) retina_gs_run IA IB]) simp_all
  then show ?thesis
    by (rule band_mono) simp_all
qed

lemma spikes_4:
  "retina_spikes (run_steps steered_source 4) = []"
  "moto_spikes (run_steps steered_source 4) = [1]"
proof -
  show "retina_spikes (run_steps steered_source 4) = []"
    by (rule retina_quiet_step [OF integrated_4]) simp_all
  show "moto_spikes (run_steps steered_source 4) = [1]"
    unfolding moto_spikes_pair [OF trace_4(6,7)]
    using exact_moto_36_19
    by (simp add: exact_moto_zero not_refractory_simps t_step_run dt_def refractory_def ms_def)
qed

lemma trace_5:
  "eye_x (run_steps steered_source 5) = 0"
  "eye_velocity (run_steps steered_source 5) = 0"
  "eye_x0 (run_steps steered_source 5) = 1 / 2"
  "eye_x_object (run_steps steered_source 5) = 14 / 19"
  "eye_noise (run_steps steered_source 5) = 14 / 19"
  "moto_v (run_steps steered_source 5) = [0, 0]"
  "moto_lastspike (run_steps steered_source 5) = [None, Some 4]"
  "band (retina_v (run_steps steered_source 5)) (0) (1 / 50) (98167 / 100000) (9883 / 10000) (1 / 10)"
proof -
  have S: "run_steps steered_source 5 = step steered_source (run_steps steered_source 4)"
    by (simp add: run_steps_numeral)
  show "eye_x (run_steps steered_source 5) = 0" "eye_velocity (run_steps steered_source 5) = 0" "eye_x_object (run_steps steered_source 5) = 14 / 19"
    unfolding S eye_step trace_4(1-5) by (simp_all add: dt_def alpha_def beta_def ms_def)
  show "eye_x0 (run_steps steered_source 5) = 1 / 2"
    unfolding S eye_x0_step_eq spikes_4 trace_4(1-5) by simp
  show "eye_noise (run_steps steered_source 5) = 14 / 19"
    unfolding S eye_step t_step_run xi_steered euler_noise_sqrt2 trace_4(1-5) by simp
  show "moto_v (run_steps steered_source 5) = [0, 0]"
    unfolding S moto_step_pair [OF trace_4(6,7)] spikes_4 drive_load_none
    by (simp add: exact_moto_zero)
  show "moto_lastspike (run_steps steered_source 5) = [None, Some 4]"
    unfolding S moto_step_pair [OF trace_4(6,7)] spikes_4 t_step_run
    by simp
  show "band (retina_v (run_steps steered_source 5)) (0) (1 / 50) (98167 / 100000) (9883 / 10000) (1 / 10)"
    unfolding S by (rule retina_quiet_step [OF integrated_4]) simp_all
qed

lemma integrated_5:
  "band (retina_integrated (run_steps steered_source 5)) (0) (3991 / 100000) (99149 / 100000) (49929 / 50000) (3 / 25)"
proof -
  have IA: "0 \<le> retina_I (run_steps steered_source 5) i \<and> retina_I (run_steps steered_source 5) i \<le> 4"
    if "i = 18 \<or> i = 19" for i
    using I_retina_any [of "14 / 19" 0 "x_neuron i"] that unfolding retina_I_def trace_5(1,4) by auto
  have IB: "1477 / 500 \<le> retina_I (run_steps steered_source 5) i \<and> retina_I (run_steps steered_source 5) i \<le> 3041 / 1000"
    if "i = 16 \<or> i = 17" for i
    using I_retina_near_16_17 [of i] that unfolding retina_I_def trace_5(1,4) by auto
  have "band (retina_integrated (run_steps steered_source 5))
      (995 / 1000 * (0) + 4987 / 1000000 * (0))
      (995013 / 1000000 * (1 / 50) + 5 / 1000 * (4))
      (995 / 1000 * (98167 / 100000) + 4987 / 1000000 * (1477 / 500))
      (995013 / 1000000 * (9883 / 10000) + 5 / 1000 * (3041 / 1000))
      (1 / 10 + 1 / 50)"
    by (rule band_integrated [OF trace_5(8) retina_gs_run IA IB]) simp_all
  then show ?thesis
    by (rule band_mono) simp_all
qed

lemma spikes_5:
  "retina_spikes (run_steps steered_source 5) = []"
  "moto_spikes (run_steps steered_source 5) = []"
proof -
  show "retina_spikes (run_steps steered_source 5) = []"
    by (rule retina_quiet_step [OF integrated_5]) simp_all
  show "moto_spikes (run_steps steered_source 5) = []"
    unfolding moto_spikes_pair [OF trace_5(6,7)]
    using exact_moto_36_19
    by (simp add: exact_moto_zero not_refractory_simps t_step_run dt_def refractory_def ms_def)
qed

lemma trace_6:
  "eye_x (run_steps steered_source 6) = 0"
  "eye_velocity (run_steps steered_source 6) = 1 / 50"
  "eye_x0 (run_steps steered_source 6) = 199 / 400"
  "eye_x_object (run_steps steered_source 6) = 14 / 19"
  "eye_noise (run_steps steered_source 6) = 34993 / 47500"
  "moto_v (run_steps steered_source 6) = [0, 0]"
  "moto_lastspike (run_steps steered_source 6) = [None, Some 4]"
  "band (retina_v (run_steps steered_source 6)) (0) (3991 / 100000) (99149 / 100000) (49929 / 50000) (3 / 25)"
proof -
  have S: "run_steps steered_source 6 = step steered_source (run_steps steered_source 5)"
    by (simp add: run_steps_numeral)
  show "eye_x (run_steps steered_source 6) = 0" "eye_velocity (run_steps steered_source 6) = 1 / 50" "eye_x_object (run_steps steered_source 6) = 14 / 19"
    unfolding S eye_step trace_5(1-5) by (simp_all add: dt_def alpha_def beta_def ms_def)
  show "eye_x0 (run_steps steered_source 6) = 199 / 400"
    unfolding S eye_x0_step_eq spikes_5 trace_5(1-5) by simp
  show "eye_noise (run_steps steered_source 6) = 34993 / 47500"
    unfolding S eye_step t_step_run xi_steered euler_noise_sqrt2 trace_5(1-5) by simp
  show "moto_v (run_steps steered_source 6) = [0, 0]"
    unfolding S moto_step_pair [OF trace_5(6,7)] spikes_5 drive_load_none
    by (simp add: exact_moto_zero)
  show "moto_lastspike (run_steps steered_source 6) = [None, Some 4]"
    unfolding S moto_step_pair [OF trace_5(6,7)] spikes_5 t_step_run
    by simp
  show "band (retina_v (run_steps steered_source 6)) (0) (3991 / 100000) (99149 / 100000) (49929 / 50000) (3 / 25)"
    unfolding S by (rule retina_quiet_step [OF integrated_5]) simp_all
qed

lemma integrated_6:
  "band (retina_integrated (run_steps steered_source 6)) (0) (1493 / 25000) (50063 / 50000) (100881 / 100000) (7 / 50)"
proof -
  have IA: "0 \<le> retina_I (run_steps steered_source 6) i \<and> retina_I (run_steps steered_source 6) i \<le> 4"
    if "i = 18 \<or> i = 19" for i
    using I_retina_any [of "14 / 19" 0 "x_neuron i"] that unfolding retina_I_def trace_6(1,4) by auto
  have IB: "1477 / 500 \<le> retina_I (run_steps steered_source 6) i \<and> retina_I (run_steps steered_source 6) i \<le> 3041 / 1000"
    if "i = 16 \<or> i = 17" for i
    using I_retina_near_16_17 [of i] that unfolding retina_I_def trace_6(1,4) by auto
  have "band (retina_integrated (run_steps steered_source 6))
      (995 / 1000 * (0) + 4987 / 1000000 * (0))
      (995013 / 1000000 * (3991 / 100000) + 5 / 1000 * (4))
      (995 / 1000 * (99149 / 100000) + 4987 / 1000000 * (1477 / 500))
      (995013 / 1000000 * (49929 / 50000) + 5 / 1000 * (3041 / 1000))
      (3 / 25 + 1 / 50)"
    by (rule band_integrated [OF trace_6(8) retina_gs_run IA IB]) simp_all
  then show ?thesis
    by (rule band_mono) simp_all
qed

lemma spikes_6:
  "retina_spikes (run_steps steered_source 6) = [16, 17]"
  "moto_spikes (run_steps steered_source 6) = []"
proof -
  show "retina_spikes (run_steps steered_source 6) = [16, 17]"
    by (rule retina_B_fires_step [OF integrated_6]) simp_all
  show "moto_spikes (run_steps steered_source 6) = []"
    unfolding moto_spikes_pair [OF trace_6(6,7)]
    using exact_moto_36_19
    by (simp add: exact_moto_zero not_refractory_simps t_step_run dt_def refractory_def ms_def)
qed

lemma trace_7:
  "eye_x (run_steps steered_source 7) = 1 / 500000"
  "eye_velocity (run_steps steered_source 7) = 1993 / 50000"
  "eye_x0 (run_steps steered_source 7) = 39601 / 80000"
  "eye_x_object (run_steps steered_source 7) = 174999993 / 237500000"
  "eye_noise (run_steps steered_source 7) = 174930007 / 237500000"
  "moto_v (run_steps steered_source 7) = [0, 28 / 19]"
  "moto_lastspike (run_steps steered_source 7) = [None, Some 4]"
  "band (retina_v (run_steps steered_source 7)) (0) (1493 / 25000) (0) (0) (7 / 50)"
proof -
  have S: "run_steps steered_source 7 = step steered_source (run_steps steered_source 6)"
    by (simp add: run_steps_numeral)
  show "eye_x (run_steps steered_source 7) = 1 / 500000" "eye_velocity (run_steps steered_source 7) = 1993 / 50000" "eye_x_object (run_steps steered_source 7) = 174999993 / 237500000"
    unfolding S eye_step trace_6(1-5) by (simp_all add: dt_def alpha_def beta_def ms_def)
  show "eye_x0 (run_steps steered_source 7) = 39601 / 80000"
    unfolding S eye_x0_step_eq spikes_6 trace_6(1-5) by simp
  show "eye_noise (run_steps steered_source 7) = 174930007 / 237500000"
    unfolding S eye_step t_step_run xi_steered euler_noise_sqrt2 trace_6(1-5) by simp
  show "moto_v (run_steps steered_source 7) = [0, 28 / 19]"
    unfolding S moto_step_pair [OF trace_6(6,7)] spikes_6 drive_load_16_17
    by (simp add: exact_moto_zero)
  show "moto_lastspike (run_steps steered_source 7) = [None, Some 4]"
    unfolding S moto_step_pair [OF trace_6(6,7)] spikes_6 t_step_run
    by simp
  show "band (retina_v (run_steps steered_source 7)) (0) (1493 / 25000) (0) (0) (7 / 50)"
    unfolding S by (rule retina_B_fires_step [OF integrated_6]) simp_all
qed

section \<open>The refractory period and the bounds of the potentials\<close>

lemma steered_rand_range: "0 \<le> rand steered_source i \<and> rand steered_source i < 1"
  by (simp add: steered_source_def)


text \<open>
  Counterexample to claim C4 as stated. In the steered run motoneuron 1 spikes at step 4
  and is reset to 0; the retinal units 16 and 17 spike at step 6, 0.2 ms later and well
  inside the refractory period of 5 ms, and raise its potential to \<open>28/19\<close>.
\<close>

theorem refractory_hold_counterexample:
  "1 \<in> set (moto_spikes (run_steps steered_source 4)) \<and>
   moto_v (run_steps steered_source 5) ! 1 = 0 \<and>
   retina_spikes (run_steps steered_source 6) = [16, 17] \<and>
   real 7 * dt - real 4 * dt < refractory \<and>
   moto_v (run_steps steered_source 7) ! 1 = 28 / 19"
  by (simp add: spikes_4 spikes_6 trace_5 trace_7 dt_def refractory_def ms_def)


subsection \<open>What the refractory period does\<close>

lemma moto_lastspike_step:
  "j < length (moto_lastspike s) \<Longrightarrow>
     moto_lastspike (step rs s) ! j =
       (if j \<in> set (moto_spikes s) then Some (t_step s) else moto_lastspike s ! j)"
  by (simp add: step_def Let_def)

lemma not_refractory_window:
  "not_refractory (n + m) (Some n) \<longleftrightarrow> 50 \<le> m"
  by (simp add: not_refractory_def dt_def refractory_def ms_def field_simps)

lemma refractory_window:
  assumes j: "j < 2" and sp: "j \<in> set (moto_spikes (run_steps rs n))"
  shows "0 < m \<Longrightarrow> m \<le> 50 \<Longrightarrow>
    moto_lastspike (run_steps rs (n + m)) ! j = Some n \<and>
    (m < 50 \<longrightarrow> j \<notin> set (moto_spikes (run_steps rs (n + m))))"
proof (induction m)
  case 0
  then show ?case by simp
next
  case (Suc m)
  have l: "j < length (moto_lastspike (run_steps rs k))" for k
    using j by (simp add: length_moto_lastspike_run)
  have ls: "moto_lastspike (run_steps rs (n + Suc m)) ! j = Some n"
  proof (cases "m = 0")
    case True
    then show ?thesis
      using sp moto_lastspike_step [OF l [of n], of rs] by (simp add: t_step_run)
  next
    case False
    with Suc have "moto_lastspike (run_steps rs (n + m)) ! j = Some n"
      and "j \<notin> set (moto_spikes (run_steps rs (n + m)))"
      by simp_all
    then show ?thesis
      using moto_lastspike_step [OF l [of "n + m"], of rs] by simp
  qed
  moreover have "j \<notin> set (moto_spikes (run_steps rs (n + Suc m)))" if "Suc m < 50"
  proof -
    have "\<not> not_refractory (n + Suc m) (Some n)"
      using that unfolding not_refractory_window by simp
    then have "\<not> not_refractory (t_step (run_steps rs (n + Suc m)))
        (moto_lastspike (run_steps rs (n + Suc m)) ! j)"
      unfolding t_step_run ls .
    then show ?thesis unfolding moto_spikes_iff by blast
  qed
  ultimately show ?case by blast
qed

text \<open>
  Claim C4, amended. When a motoneuron spikes in a step, its potential is reset to 0 in
  that step and it does not spike in any of the following 49 steps (the refractory period
  of 5 ms); it can spike again from the 50th step on. The potential is not held: in every
  step of the period it is integrated and incremented by the weights of the retinal
  spikes that arrive.
\<close>

theorem refractory_blocks_spikes_only:
  assumes "j < 2" and "j \<in> set (moto_spikes (run_steps rs n))"
  shows "moto_v (run_steps rs (Suc n)) ! j = 0 \<and>
    (\<forall>m. 0 < m \<and> m < 50 \<longrightarrow>
       j \<notin> set (moto_spikes (run_steps rs (n + m))) \<and>
       moto_v (run_steps rs (Suc (n + m))) ! j =
         exact_moto (moto_v (run_steps rs (n + m)) ! j)
           + drive_load j (\<lambda>i. if i \<in> set (retina_spikes (run_steps rs (n + m))) then 1 else 0)) \<and>
    not_refractory (n + 50) (moto_lastspike (run_steps rs (n + 50)) ! j)"
proof -
  have l: "j < length (moto_v (run_steps rs k))" for k
    using assms(1) by (simp add: length_moto_v_run)
  have "moto_v (run_steps rs (Suc n)) ! j = 0"
    using moto_v_step [OF l [of n], of rs] assms(2) by simp
  moreover have "j \<notin> set (moto_spikes (run_steps rs (n + m))) \<and>
       moto_v (run_steps rs (Suc (n + m))) ! j =
         exact_moto (moto_v (run_steps rs (n + m)) ! j)
           + drive_load j (\<lambda>i. if i \<in> set (retina_spikes (run_steps rs (n + m))) then 1 else 0)"
    if "0 < m" "m < 50" for m
  proof -
    have "j \<notin> set (moto_spikes (run_steps rs (n + m)))"
      using refractory_window [OF assms, of m] that by simp
    then show ?thesis
      using moto_v_step [OF l [of "n + m"], of rs] by simp
  qed
  moreover have "not_refractory (n + 50) (moto_lastspike (run_steps rs (n + 50)) ! j)"
    using refractory_window [OF assms, of 50] not_refractory_window [of n 50] by simp
  ultimately show ?thesis by blast
qed

theorem refractory_blocks_spikes_only_witness:
  "moto_v (run_steps steered_source 5) ! 1 = 0 \<and>
   1 \<notin> set (moto_spikes (run_steps steered_source 6)) \<and>
   moto_v (run_steps steered_source 7) ! 1 =
     exact_moto (moto_v (run_steps steered_source 6) ! 1)
       + drive_load 1 (\<lambda>i. if i \<in> set (retina_spikes (run_steps steered_source 6)) then 1 else 0)"
proof -
  have h: "(1::nat) < 2" "1 \<in> set (moto_spikes (run_steps steered_source 4))"
    by (simp_all add: spikes_4)
  have m: "0 < (2::nat) \<and> (2::nat) < 50" by simp
  from refractory_blocks_spikes_only [OF h]
  have "moto_v (run_steps steered_source (Suc 4)) ! 1 = 0"
    and "\<forall>m. 0 < m \<and> m < 50 \<longrightarrow>
       1 \<notin> set (moto_spikes (run_steps steered_source (4 + m))) \<and>
       moto_v (run_steps steered_source (Suc (4 + m))) ! 1 =
         exact_moto (moto_v (run_steps steered_source (4 + m)) ! 1)
           + drive_load 1 (\<lambda>i. if i \<in> set (retina_spikes (run_steps steered_source (4 + m)))
                                then 1 else 0)"
    by blast+
  from this(1) this(2) [rule_format, OF m] show ?thesis
    by (simp only: numeral_eq_Suc pred_numeral_simps add_Suc add_Suc_right add_0_right
        Nat.add_0_right BitM.simps num.simps, simp only: HOL.simp_thms)
qed






end
